theory Spec2Isabelle
  imports Complex_Main
begin

section \<open>Machine integers of the source\<close>

text \<open>
  The source mixes \<^verbatim>\<open>unsigned int\<close> (32 bits), \<^verbatim>\<open>int\<close> (32 bits, two's complement),
  \<^verbatim>\<open>unsigned long\<close> (the size and offset values of a grid, 64 bits) and \<^verbatim>\<open>long\<close> (the
  index values of a grid). Unsigned values are modelled as \<open>nat\<close>, signed ones as \<open>int\<close>,
  and every wrap-around and conversion of the source is written out. Arithmetic on
  \<^verbatim>\<open>long\<close> index values is plain \<open>int\<close> arithmetic: its overflow is undefined in the
  source language and does not occur for a region whose bounds fit the type.
\<close>

definition uint_times :: "nat \<Rightarrow> nat \<Rightarrow> nat" where
  \<comment> \<open>\<^verbatim>\<open>a * b\<close> on \<^verbatim>\<open>unsigned int\<close>\<close>
  "uint_times a b = (a * b) mod 2 ^ 32"

definition ulong_minus :: "nat \<Rightarrow> nat \<Rightarrow> nat" where
  \<comment> \<open>\<^verbatim>\<open>a - b\<close> on \<^verbatim>\<open>unsigned long\<close>\<close>
  "ulong_minus a b = (2 ^ 64 + a mod 2 ^ 64 - b mod 2 ^ 64) mod 2 ^ 64"

definition ulong_plus :: "nat \<Rightarrow> nat \<Rightarrow> nat" where
  "ulong_plus a b = (a + b) mod 2 ^ 64"

definition ulong_times :: "nat \<Rightarrow> nat \<Rightarrow> nat" where
  "ulong_times a b = (a * b) mod 2 ^ 64"

definition ulong_of_long :: "int \<Rightarrow> nat" where
  \<comment> \<open>the implicit conversion of an offset (\<^verbatim>\<open>long\<close>) to \<^verbatim>\<open>unsigned long\<close>\<close>
  "ulong_of_long i = nat (i mod 2 ^ 64)"

definition int_of_ulong :: "nat \<Rightarrow> int" where
  \<comment> \<open>\<^verbatim>\<open>static_cast<int>( x )\<close> of an \<^verbatim>\<open>unsigned long\<close>: the low 32 bits, read as
     two's complement\<close>
  "int_of_ulong n =
     (let m = int (n mod 2 ^ 32) in if m < 2 ^ 31 then m else m - 2 ^ 32)"

definition uint_of_int :: "int \<Rightarrow> nat" where
  \<comment> \<open>\<^verbatim>\<open>static_cast<unsigned int>( x )\<close> of an \<^verbatim>\<open>int\<close>\<close>
  "uint_of_int i = nat (i mod 2 ^ 32)"

definition uint_of_ulong :: "nat \<Rightarrow> nat" where
  \<comment> \<open>\<^verbatim>\<open>static_cast<unsigned int>( x )\<close> of an \<^verbatim>\<open>unsigned long\<close>\<close>
  "uint_of_ulong n = n mod 2 ^ 32"

definition vnl_math_max :: "int \<Rightarrow> int \<Rightarrow> int" where
  "vnl_math_max a b = (if a < b then b else a)"


section \<open>Grid regions, images and the exclusion iterator\<close>

text \<open>
  A region of dimension \<open>D\<close> is an index (one \<^verbatim>\<open>long\<close> per axis) and a size (one
  \<^verbatim>\<open>unsigned long\<close> per axis). The fields carry the names of the accessors of the source.
\<close>

record Region =
  GetIndex :: "int list"
  GetSize :: "nat list"

definition axes :: "Region \<Rightarrow> (int \<times> nat) list" where
  "axes r = zip (GetIndex r) (GetSize r)"

definition GetNumberOfPixels :: "Region \<Rightarrow> nat" where
  "GetNumberOfPixels r = prod_list (GetSize r)"

text \<open>
  Modelled from the spec: the image classes of the toolkit are not among the sources.
  \<open>IsInside\<close> is membership of an index in a region; \<open>ComputeOffset\<close> is the linear
  position of an index in the buffer of the coefficient image, the first axis running
  fastest; \<open>region_indices\<close> is the walk of a region iterator, in the same order.
\<close>

fun IsInside_axes :: "(int \<times> nat) list \<Rightarrow> int list \<Rightarrow> bool" where
  "IsInside_axes [] xs = True"
| "IsInside_axes ((i, n) # r) [] = False"
| "IsInside_axes ((i, n) # r) (x # xs) = (i \<le> x \<and> x < i + int n \<and> IsInside_axes r xs)"

definition IsInside :: "Region \<Rightarrow> int list \<Rightarrow> bool" where
  "IsInside r idx = IsInside_axes (axes r) idx"

fun offset_axes :: "(int \<times> nat) list \<Rightarrow> int list \<Rightarrow> int" where
  "offset_axes [] xs = 0"
| "offset_axes ((i, n) # r) [] = 0"
| "offset_axes ((i, n) # r) (x # xs) = (x - i) + int n * offset_axes r xs"

definition ComputeOffset :: "Region \<Rightarrow> int list \<Rightarrow> int" where
  "ComputeOffset r idx = offset_axes (axes r) idx"

fun raster :: "(int \<times> nat) list \<Rightarrow> int list list" where
  "raster [] = [[]]"
| "raster ((i, n) # r) =
     concat (map (\<lambda>rest. map (\<lambda>k. (i + int k) # rest) [0..<n]) (raster r))"

definition region_indices :: "Region \<Rightarrow> int list list" where
  "region_indices r = raster (axes r)"

text \<open>
  Modelled from the spec: the exclusion iterator
  (\<^verbatim>\<open>ImageRegionExclusionConstIteratorWithIndex\<close>) is not among the sources. It walks the
  region it is given and visits, once each, the indices that are not inside the
  exclusion region.
\<close>

definition exclusion_walk :: "Region \<Rightarrow> Region \<Rightarrow> int list list" where
  "exclusion_walk region exclusion =
     filter (\<lambda>idx. \<not> IsInside exclusion idx) (region_indices region)"


section \<open>Output streams\<close>

text \<open>
  What is sent to a stream of \<^verbatim>\<open>xout\<close>, piece by piece as the \<^verbatim>\<open><<\<close> chain of the source
  sends it. A floating-point value is recorded with the precision in force on the
  stream when it is sent.
\<close>

datatype item = Str string | UInt nat | SInt int | Dbl nat real | Endl

record ostream =
  contents :: "item list"
  precision :: nat

definition put :: "item list \<Rightarrow> ostream \<Rightarrow> ostream" where
  \<comment> \<open>text, integers and line ends\<close>
  "put xs out = out\<lparr>contents := contents out @ xs\<rparr>"

definition put_double :: "real \<Rightarrow> ostream \<Rightarrow> ostream" where
  "put_double x out = out\<lparr>contents := contents out @ [Dbl (precision out) x]\<rparr>"

definition setprecision :: "nat \<Rightarrow> ostream \<Rightarrow> ostream" where
  "setprecision p out = out\<lparr>precision := p\<rparr>"

datatype exception = ExceptionObject string


section \<open>The configuration\<close>

text \<open>
  Modelled from the spec: the configuration class is not among the sources. It is a
  keyed, indexed lookup with a query for the number of entries of a key. An entry is
  the number a literal of the parameter file denotes; reading it into a variable of an
  integer type succeeds when the number is an integer of that type, and a read that
  does not succeed leaves the variable as it was. The diagnostics the configuration
  prints on a failed read are outside the model.
\<close>

type_synonym Configuration = "string \<Rightarrow> real list"

definition CountNumberOfParameterEntries :: "Configuration \<Rightarrow> string \<Rightarrow> nat" where
  "CountNumberOfParameterEntries cfg name = length (cfg name)"

definition as_double :: "real \<Rightarrow> real option" where
  "as_double x = Some x"




definition ReadParameter :: "'a \<Rightarrow> (real \<Rightarrow> 'a option) \<Rightarrow> Configuration \<Rightarrow> string \<Rightarrow> nat \<Rightarrow> 'a" where
  \<comment> \<open>\<^verbatim>\<open>ReadParameter( value, name, entry_nr )\<close>: the new content of \<^verbatim>\<open>value\<close>\<close>
  "ReadParameter val conv cfg name entry_nr =
     (if entry_nr < length (cfg name)
      then (case conv (cfg name ! entry_nr) of None \<Rightarrow> val | Some v \<Rightarrow> v)
      else val)"

definition ReadParameter_prefix ::
  "'a \<Rightarrow> (real \<Rightarrow> 'a option) \<Rightarrow> Configuration \<Rightarrow> string \<Rightarrow> string \<Rightarrow> nat \<Rightarrow> nat \<Rightarrow> 'a" where
  \<comment> \<open>\<^verbatim>\<open>ReadParameter( value, name, prefix, entry_nr, default_entry_nr )\<close>: the entry
     \<^verbatim>\<open>entry_nr\<close> if there is one, the entry \<^verbatim>\<open>default_entry_nr\<close> otherwise; the name with
     the component's label in front goes before the plain name\<close>
  "ReadParameter_prefix val conv cfg name prefix entry_nr default_entry_nr =
     (let v1 = ReadParameter val conv cfg name default_entry_nr;
          v2 = ReadParameter v1 conv cfg name entry_nr;
          v3 = ReadParameter v2 conv cfg (prefix @ name) default_entry_nr
      in ReadParameter v3 conv cfg (prefix @ name) entry_nr)"


section \<open>The transform, the registration and the component\<close>

record BSplineTransform =
  GetGridRegion :: Region
  GetGridSpacing :: "real list"
  GetGridOrigin :: "real list"
  GetGridDirection :: "real list list"
  GetParameters :: "real list"

text \<open>
  Modelled from the spec: the transform class itself is not among the sources. Its
  coefficient vector has one block of as many scalars as the grid has control points
  for each of the \<open>D\<close> dimensions.
\<close>

definition GetNumberOfParameters :: "nat \<Rightarrow> BSplineTransform \<Rightarrow> nat" where
  "GetNumberOfParameters D t = D * GetNumberOfPixels (GetGridRegion t)"

type_synonym Grid = "Region \<times> real list \<times> real list \<times> real list list"

record Image =
  GetOrigin :: "real list"
  GetSpacing :: "real list"
  GetDirection :: "real list list"
  GetLargestPossibleRegion :: Region

record GridScheduleComputer =
  BSplineOrder :: nat
  ImageOrigin :: "real list"
  ImageSpacing :: "real list"
  ImageDirection :: "real list list"
  ImageRegion :: Region
  InitialTransformSet :: bool
  Schedule :: "real list list"
  FinalGridSpacing :: "real list"
  BSplineGrid :: "nat \<Rightarrow> Grid"

record Registration =
  GetCurrentLevel :: nat
  GetNumberOfLevels :: nat
  InitialTransformParameters :: "real list"
  InitialTransformParametersOfNextLevel :: "real list"
  GetLastTransformParameters :: "real list"
  OptimizerScales :: "real list"

record Component =
  m_PeriodicBSplineTransform :: BSplineTransform
  m_GridScheduleComputer :: GridScheduleComputer
  m_Registration :: Registration
  m_Configuration :: Configuration
  GetComponentLabel :: string
  GetUseComposition :: bool
  GetFixedImage :: Image
  GetDefaultOutputPrecision :: nat
  xout_error :: "item list"
  xout_warning :: "item list"
  xout_transpar :: ostream

definition SetScales :: "real list \<Rightarrow> Component \<Rightarrow> Component" where
  \<comment> \<open>\<^verbatim>\<open>m_Registration->GetAsITKBaseType()->GetOptimizer()->SetScales( scales )\<close>\<close>
  "SetScales scales s = s\<lparr>m_Registration := (m_Registration s)\<lparr>OptimizerScales := scales\<rparr>\<rparr>"


section \<open>SetOptimizerScales\<close>

definition infScale :: real where
  "infScale = 10000"

definition inset_size :: "nat \<Rightarrow> nat \<Rightarrow> nat" where
  \<comment> \<open>\<^verbatim>\<open>static_cast<unsigned int>( vnl_math_max( 0,
       static_cast<int>( gridsize[ i ] - 2 * edgeWidth ) ) )\<close>\<close>
  "inset_size gridsize_i edgeWidth =
     uint_of_int (vnl_math_max 0 (int_of_ulong (ulong_minus gridsize_i (uint_times 2 edgeWidth))))"

text \<open>
  The loop that determines the inset region, over the axes \<open>i\<close> still to do. It stops at
  the first axis whose inset size is 0 and hands that axis back (\<open>Inl\<close>); otherwise it
  returns the inset size and the inset index.
\<close>

fun inset_loop :: "nat \<Rightarrow> nat list \<Rightarrow> int list \<Rightarrow> nat list \<Rightarrow> nat + (nat list \<times> int list)" where
  "inset_loop edgeWidth gridsize gridindex [] = Inr ([], [])"
| "inset_loop edgeWidth gridsize gridindex (i # rest) =
     (if inset_size (gridsize ! i) edgeWidth = 0 then Inl i
      else (case inset_loop edgeWidth gridsize gridindex rest of
              Inl j \<Rightarrow> Inl j
            | Inr (insetgridsize, insetgridindex) \<Rightarrow>
                Inr (inset_size (gridsize ! i) edgeWidth # insetgridsize,
                     (gridindex ! i + int edgeWidth) # insetgridindex)))"

definition edge_error_message :: "nat \<Rightarrow> nat \<Rightarrow> nat \<Rightarrow> item list" where
  "edge_error_message edgeWidth i gridsize_i =
     [Str ''ERROR: you specified a PassiveEdgeWidth of '', UInt edgeWidth,
      Str '' while the total grid size in dimension '', UInt i,
      Str '' is only '', UInt gridsize_i, Str ''.'', Endl]"

definition scalesIndex :: "nat \<Rightarrow> nat \<Rightarrow> nat \<Rightarrow> nat" where
  \<comment> \<open>\<^verbatim>\<open>static_cast<unsigned int>( baseOffset + i * offset )\<close>\<close>
  "scalesIndex baseOffset i offset =
     uint_of_ulong (ulong_plus baseOffset (ulong_times i offset))"

definition freeze_point :: "nat \<Rightarrow> Region \<Rightarrow> nat \<Rightarrow> int list \<Rightarrow> real list \<Rightarrow> real list" where
  \<comment> \<open>the body of the \<^verbatim>\<open>while\<close> loop: one control point, all \<open>D\<close> blocks; a write beyond
     the end of the vector, which the source does not check, leaves the list as it is\<close>
  "freeze_point D coeff offset index newScales =
     (let baseOffset = ulong_of_long (ComputeOffset coeff index)
      in fold (\<lambda>i scales. scales[scalesIndex baseOffset i offset := infScale]) [0..<D] newScales)"

definition SetOptimizerScales :: "nat \<Rightarrow> nat \<Rightarrow> Component \<Rightarrow> exception option \<times> Component" where
  "SetOptimizerScales D edgeWidth s =
     (let numberOfParameters = GetNumberOfParameters D (m_PeriodicBSplineTransform s);
          offset = numberOfParameters div D;
          newScales = replicate numberOfParameters 1
      in if edgeWidth = 0 then (None, SetScales newScales s)
         else
           let gridregion = GetGridRegion (m_PeriodicBSplineTransform s);
               gridsize = GetSize gridregion;
               gridindex = GetIndex gridregion
           in (case inset_loop edgeWidth gridsize gridindex [0..<D] of
                 Inl i \<Rightarrow>
                   (Some (ExceptionObject ''ERROR: the PassiveEdgeWidth is too large!''),
                    s\<lparr>xout_error := xout_error s @ edge_error_message edgeWidth i (gridsize ! i)\<rparr>)
               | Inr (insetgridsize, insetgridindex) \<Rightarrow>
                   let insetgridregion = \<lparr>GetIndex = insetgridindex, GetSize = insetgridsize\<rparr>
                   in (None,
                       SetScales
                         (fold (freeze_point D gridregion offset)
                            (exclusion_walk gridregion insetgridregion) newScales) s)))"


section \<open>PreComputeGridInformation\<close>

text \<open>
  Modelled from the spec: the grid schedule computer is not among the sources. Its
  default schedule is geometric: the given factor per coarser level, 1 at the finest
  level, the same on every axis. What \<^verbatim>\<open>ComputeBSplineGrid\<close> computes from the settings of
  the computer is a parameter of the model.
\<close>

definition SetDefaultSchedule :: "nat \<Rightarrow> nat \<Rightarrow> real \<Rightarrow> GridScheduleComputer \<Rightarrow> GridScheduleComputer" where
  "SetDefaultSchedule D levels upsamplingFactor gsc =
     gsc\<lparr>Schedule := map (\<lambda>res. replicate D (upsamplingFactor ^ (levels - 1 - res))) [0..<levels]\<rparr>"

definition finalGridSpacing :: "nat \<Rightarrow> Component \<Rightarrow> real list" where
  \<comment> \<open>the local \<^verbatim>\<open>finalGridSpacingInPhysicalUnits\<close> after the choice between method 1 and
     method 2\<close>
  "finalGridSpacing D s =
     (let method2 = CountNumberOfParameterEntries (m_Configuration s)
                      ''FinalGridSpacingInPhysicalUnits'' \<noteq> 0;
          finalGridSpacingInVoxels = replicate D (16 :: real);
          finalGridSpacingInPhysicalUnits = replicate D (8 :: real)
      in if method2
         then map (\<lambda>dim. ReadParameter_prefix (finalGridSpacingInPhysicalUnits ! dim) as_double
                          (m_Configuration s) ''FinalGridSpacingInPhysicalUnits''
                          (GetComponentLabel s) dim 0) [0..<D]
         else
           let finalGridSpacingInVoxels =
                 map (\<lambda>dim. ReadParameter_prefix (finalGridSpacingInVoxels ! dim) as_double
                          (m_Configuration s) ''FinalGridSpacingInVoxels''
                          (GetComponentLabel s) dim 0) [0..<D]
           in map (\<lambda>dim. finalGridSpacingInVoxels ! dim * GetSpacing (GetFixedImage s) ! dim)
                [0..<D])"

definition gridSpacingSchedule ::
  "nat \<Rightarrow> nat \<Rightarrow> Configuration \<Rightarrow> real list list \<Rightarrow> unit + real list list" where
  \<comment> \<open>what the user has specified overrules the default \<^verbatim>\<open>gridSchedule\<close>; \<open>Inl\<close> is the
     branch that ends in the exception\<close>
  "gridSpacingSchedule D nrOfResolutions cfg gridSchedule =
     (let count = CountNumberOfParameterEntries cfg ''GridSpacingSchedule''
      in if count = 0 then Inr gridSchedule
         else if count = nrOfResolutions then
           Inr (map (\<lambda>res. map (\<lambda>dim.
                  ReadParameter (gridSchedule ! res ! dim) as_double cfg ''GridSpacingSchedule'' res)
                  [0..<D]) [0..<nrOfResolutions])
         else if count = uint_times nrOfResolutions D then
           Inr (map (\<lambda>res. map (\<lambda>dim.
                  ReadParameter (gridSchedule ! res ! dim) as_double cfg ''GridSpacingSchedule''
                    ((res * D + dim) mod 2 ^ 32))
                  [0..<D]) [0..<nrOfResolutions])
         else Inl ())"

definition schedule_error_message :: "item list" where
  "schedule_error_message =
     [Str ''ERROR: Invalid GridSpacingSchedule! The number of entries'',
      Str '' behind the GridSpacingSchedule option should equal the'',
      Str '' numberOfResolutions, or the numberOfResolutions*imageDimension.'', Endl]"

definition spacing_warning_message :: "item list" where
  "spacing_warning_message =
     [Str ''WARNING: The provided grid spacing may be adapted to fit the periodic '',
      Str ''behavior of the PeriodicBSplineTransform.'', Endl]"

definition PreComputeGridInformation ::
  "nat \<Rightarrow> (GridScheduleComputer \<Rightarrow> nat \<Rightarrow> Grid) \<Rightarrow> Component \<Rightarrow> exception option \<times> Component" where
  "PreComputeGridInformation D ComputeBSplineGrid s =
     (let nrOfResolutions = uint_of_ulong (GetNumberOfLevels (m_Registration s));
          gsc = (m_GridScheduleComputer s)
                  \<lparr>ImageOrigin := GetOrigin (GetFixedImage s),
                   ImageSpacing := GetSpacing (GetFixedImage s),
                   ImageDirection := GetDirection (GetFixedImage s),
                   ImageRegion := GetLargestPossibleRegion (GetFixedImage s)\<rparr>;
          gsc = (if GetUseComposition s then gsc\<lparr>InitialTransformSet := True\<rparr> else gsc);
          finalGridSpacingInPhysicalUnits = finalGridSpacing D s;
          gsc = SetDefaultSchedule D nrOfResolutions 2 gsc;
          gridSchedule = Schedule gsc
      in (case gridSpacingSchedule D nrOfResolutions (m_Configuration s) gridSchedule of
            Inl _ \<Rightarrow>
              (Some (ExceptionObject ''ERROR: Invalid GridSpacingSchedule!''),
               s\<lparr>m_GridScheduleComputer := gsc,
                 xout_error := xout_error s @ schedule_error_message\<rparr>)
          | Inr gridSchedule \<Rightarrow>
              let gsc = gsc\<lparr>FinalGridSpacing := finalGridSpacingInPhysicalUnits\<rparr>;
                  gsc = gsc\<lparr>Schedule := gridSchedule\<rparr>;
                  gsc = gsc\<lparr>BSplineGrid := ComputeBSplineGrid gsc\<rparr>
              in (None,
                  s\<lparr>m_GridScheduleComputer := gsc,
                    xout_warning := xout_warning s @ spacing_warning_message\<rparr>)))"


section \<open>BeforeRegistration, InitializeTransform, IncreaseScale, BeforeEachResolution\<close>

definition BeforeRegistration ::
  "nat \<Rightarrow> (GridScheduleComputer \<Rightarrow> nat \<Rightarrow> Grid) \<Rightarrow> Component \<Rightarrow> exception option \<times> Component" where
  "BeforeRegistration D ComputeBSplineGrid s =
     (let gridsize = (replicate D 1)[D - 1 := 4];
          gridindex = replicate D 0;
          gridspacing = replicate D 1;
          gridorigin = replicate D 0;
          gridregion = \<lparr>GetIndex = gridindex, GetSize = gridsize\<rparr>;
          t = (m_PeriodicBSplineTransform s)
                \<lparr>GetGridRegion := gridregion, GetGridSpacing := gridspacing,
                 GetGridOrigin := gridorigin\<rparr>;
          dummyInitialParameters = replicate (GetNumberOfParameters D t) 0;
          s = s\<lparr>m_PeriodicBSplineTransform := t,
                m_Registration := (m_Registration s)
                  \<lparr>InitialTransformParameters := dummyInitialParameters\<rparr>\<rparr>
      in PreComputeGridInformation D ComputeBSplineGrid s)"






section \<open>WriteToFile and ReadFromFile\<close>

text \<open>
  What the base class (\<^verbatim>\<open>Superclass2\<close>) writes before the grid lines, and the parameter
  vector it reads once the grid is set, are parameters of the model: the base class is
  not among the sources.
\<close>

definition write_grid :: "nat \<Rightarrow> BSplineTransform \<Rightarrow> nat \<Rightarrow> ostream \<Rightarrow> ostream" where
  \<comment> \<open>the lines \<^verbatim>\<open>WriteToFile\<close> adds after the call of the base class\<close>
  "write_grid D t defaultOutputPrecision out =
     (let size = GetSize (GetGridRegion t);
          index = GetIndex (GetGridRegion t);
          spacing = GetGridSpacing t;
          origin = GetGridOrigin t;
          direction = GetGridDirection t;
          out = put [Endl, Str ''// BSplineTransform specific'', Endl] out;
          out = put [Str ''(GridSize ''] out;
          out = fold (\<lambda>i. put [UInt (size ! i), Str '' '']) [0..<D - 1] out;
          out = put [UInt (size ! (D - 1)), Str '')'', Endl] out;
          out = put [Str ''(GridIndex ''] out;
          out = fold (\<lambda>i. put [SInt (index ! i), Str '' '']) [0..<D - 1] out;
          out = put [SInt (index ! (D - 1)), Str '')'', Endl] out;
          out = setprecision 10 out;
          out = put [Str ''(GridSpacing ''] out;
          out = fold (\<lambda>i out. put [Str '' ''] (put_double (spacing ! i) out)) [0..<D - 1] out;
          out = put [Str '')'', Endl] (put_double (spacing ! (D - 1)) out);
          out = put [Str ''(GridOrigin ''] out;
          out = fold (\<lambda>i out. put [Str '' ''] (put_double (origin ! i) out)) [0..<D - 1] out;
          out = put [Str '')'', Endl] (put_double (origin ! (D - 1)) out);
          out = put [Str ''(GridDirection''] out;
          out = fold (\<lambda>i. fold (\<lambda>j out. put_double (direction ! j ! i) (put [Str '' ''] out))
                             [0..<D]) [0..<D] out;
          out = put [Str '')'', Endl] out
      in setprecision defaultOutputPrecision out)"
















section \<open>The periodic tiling of the spec\<close>

text \<open>
  Modelled from the spec: the requested spacing of a level on an axis is the final grid
  spacing times the schedule entry, and it divides the domain evenly when the extent of
  the image along the axis is a whole number of such spacings. The computation that
  adjusts a spacing that does not is in the grid schedule computer, which is not among
  the sources.
\<close>

definition divides_evenly :: "real \<Rightarrow> real \<Rightarrow> bool" where
  "divides_evenly extent spacing =
     (spacing \<noteq> 0 \<and> extent / spacing = of_int \<lfloor>extent / spacing\<rfloor>)"

definition spacing_fits :: "nat \<Rightarrow> GridScheduleComputer \<Rightarrow> bool" where
  "spacing_fits D gsc =
     list_all (\<lambda>res. list_all (\<lambda>d.
        divides_evenly (ImageSpacing gsc ! d * real (GetSize (ImageRegion gsc) ! d))
                       (FinalGridSpacing gsc ! d * Schedule gsc ! res ! d)) [0..<D])
       [0..<length (Schedule gsc)]"


section \<open>Quantities of the statements\<close>

definition point_position :: "Region \<Rightarrow> nat \<Rightarrow> int list \<Rightarrow> nat \<Rightarrow> nat" where
  \<comment> \<open>the entry of the scales that the loop writes for a control point and a block\<close>
  "point_position coeff offset index i =
     scalesIndex (ulong_of_long (ComputeOffset coeff index)) i offset"

definition default_schedule :: "nat \<Rightarrow> nat \<Rightarrow> real list list" where
  \<comment> \<open>the schedule \<^verbatim>\<open>SetDefaultSchedule( levels, 2.0 )\<close> sets\<close>
  "default_schedule D levels = map (\<lambda>res. replicate D (2 ^ (levels - 1 - res))) [0..<levels]"

definition computer_with_image :: "Component \<Rightarrow> GridScheduleComputer" where
  \<comment> \<open>the schedule computer once the image information and the initial transform are set\<close>
  "computer_with_image s =
     (let gsc = (m_GridScheduleComputer s)
                  \<lparr>ImageOrigin := GetOrigin (GetFixedImage s),
                   ImageSpacing := GetSpacing (GetFixedImage s),
                   ImageDirection := GetDirection (GetFixedImage s),
                   ImageRegion := GetLargestPossibleRegion (GetFixedImage s)\<rparr>
      in if GetUseComposition s then gsc\<lparr>InitialTransformSet := True\<rparr> else gsc)"



definition inset_region :: "Region \<Rightarrow> nat \<Rightarrow> Region" where
  \<comment> \<open>the grid region shrunk by \<open>w\<close> on each side of every axis\<close>
  "inset_region r w =
     \<lparr>GetIndex = map (\<lambda>i. i + int w) (GetIndex r), GetSize = map (\<lambda>n. n - 2 * w) (GetSize r)\<rparr>"


section \<open>A small component, for the examples\<close>

definition unit_grid :: Grid where
  "unit_grid = (\<lparr>GetIndex = [0, 0], GetSize = [1, 4]\<rparr>, [1, 1], [0, 0], [[1, 0], [0, 1]])"

definition example :: Component where
  "example =
     \<lparr>m_PeriodicBSplineTransform =
        \<lparr>GetGridRegion = \<lparr>GetIndex = [0, 0], GetSize = [3, 3]\<rparr>,
         GetGridSpacing = [16, 16], GetGridOrigin = [0, 0],
         GetGridDirection = [[1, 0], [0, 1]], GetParameters = replicate 18 0\<rparr>,
      m_GridScheduleComputer =
        \<lparr>BSplineOrder = 3, ImageOrigin = [], ImageSpacing = [], ImageDirection = [],
         ImageRegion = \<lparr>GetIndex = [], GetSize = []\<rparr>, InitialTransformSet = False,
         Schedule = [], FinalGridSpacing = [], BSplineGrid = (\<lambda>level. unit_grid)\<rparr>,
      m_Registration =
        \<lparr>GetCurrentLevel = 0, GetNumberOfLevels = 1, InitialTransformParameters = [],
         InitialTransformParametersOfNextLevel = [], GetLastTransformParameters = [],
         OptimizerScales = []\<rparr>,
      m_Configuration = (\<lambda>name. []),
      GetComponentLabel = ''Transform'',
      GetUseComposition = False,
      GetFixedImage =
        \<lparr>GetOrigin = [0, 0], GetSpacing = [2, 2], GetDirection = [[1, 0], [0, 1]],
         GetLargestPossibleRegion = \<lparr>GetIndex = [0, 0], GetSize = [64, 64]\<rparr>\<rparr>,
      GetDefaultOutputPrecision = 6,
      xout_error = [], xout_warning = [],
      xout_transpar = \<lparr>contents = [], precision = 6\<rparr>\<rparr>"

definition with_levels :: "nat \<Rightarrow> Component \<Rightarrow> Component" where
  "with_levels n s = s\<lparr>m_Registration := (m_Registration s)\<lparr>GetNumberOfLevels := n\<rparr>\<rparr>"

definition unit_grids :: "GridScheduleComputer \<Rightarrow> nat \<Rightarrow> Grid" where
  "unit_grids gsc level = unit_grid"






definition with_grid :: "int list \<Rightarrow> nat list \<Rightarrow> Component \<Rightarrow> Component" where
  "with_grid gridindex gridsize s =
     s\<lparr>m_PeriodicBSplineTransform := (m_PeriodicBSplineTransform s)
         \<lparr>GetGridRegion := \<lparr>GetIndex = gridindex, GetSize = gridsize\<rparr>\<rparr>\<rparr>"

definition with_entries :: "string \<Rightarrow> real list \<Rightarrow> Component \<Rightarrow> Component" where
  "with_entries name entries s =
     s\<lparr>m_Configuration := (m_Configuration s)(name := entries)\<rparr>"





section \<open>The walk of a region and the offsets of its indices\<close>

lemma concat_blocks_upt:
  "concat (map (\<lambda>m. map (\<lambda>k. k + n * m) [0..<n]) [0..<p]) = [0..<n * p]"
proof (induction p)
  case 0
  then show ?case by simp
next
  case (Suc p)
  have "map (\<lambda>k. k + n * p) [0..<n] = [n * p..<n * p + n]"
    by (simp add: map_add_upt add.commute)
  moreover have "[0..<n * Suc p] = [0..<n * p] @ [n * p..<n * p + n]"
    using upt_add_eq_append[of 0 "n * p" n] by (simp add: add.commute)
  ultimately show ?case using Suc by simp
qed

lemma length_raster: "length (raster r) = prod_list (map snd r)"
proof (induction r)
  case Nil
  then show ?case by simp
next
  case (Cons a r)
  obtain i n where a: "a = (i, n)" by (cases a)
  have "length (raster ((i, n) # r)) = n * length (raster r)"
    by (simp add: length_concat comp_def sum_list_triv)
  then show ?case using Cons a by simp
qed

lemma map_offset_raster:
  "map (offset_axes r) (raster r) = map int [0..<prod_list (map snd r)]"
proof (induction r)
  case Nil
  then show ?case by simp
next
  case (Cons a r)
  obtain i n where a: "a = (i, n)" by (cases a)
  let ?p = "prod_list (map snd r)"
  have "map (offset_axes ((i, n) # r)) (raster ((i, n) # r))
      = concat (map (\<lambda>rest. map (\<lambda>k. int k + int n * offset_axes r rest) [0..<n]) (raster r))"
    by (simp add: map_concat comp_def)
  also have "\<dots> = concat (map (\<lambda>m. map (\<lambda>k. int k + int n * m) [0..<n]) (map (offset_axes r) (raster r)))"
    by (simp add: comp_def)
  also have "\<dots> = concat (map (\<lambda>m. map (\<lambda>k. int k + int n * m) [0..<n]) (map int [0..<?p]))"
    by (simp only: Cons.IH)
  also have "\<dots> = map int (concat (map (\<lambda>m. map (\<lambda>k. k + n * m) [0..<n]) [0..<?p]))"
    by (simp add: map_concat comp_def)
  also have "\<dots> = map int [0..<n * ?p]"
    by (simp only: concat_blocks_upt)
  finally show ?case using a by simp
qed

lemma offset_raster_nth:
  assumes "k < prod_list (map snd r)"
  shows "offset_axes r (raster r ! k) = int k"
proof -
  have "map (offset_axes r) (raster r) ! k = map int [0..<prod_list (map snd r)] ! k"
    by (simp only: map_offset_raster)
  then show ?thesis using assms by (simp add: length_raster)
qed

lemma distinct_raster: "distinct (raster r)"
proof -
  have "distinct (map (offset_axes r) (raster r))"
    by (simp add: map_offset_raster distinct_map  inj_on_def)
  then show ?thesis by (simp add: distinct_map)
qed

lemma inj_on_offset_raster: "inj_on (offset_axes r) (set (raster r))"
proof -
  have "distinct (map (offset_axes r) (raster r))"
    by (simp add: map_offset_raster distinct_map inj_on_def)
  then show ?thesis by (simp add: distinct_map)
qed

lemma set_raster:
  "set (raster r) = {xs. length xs = length r \<and> IsInside_axes r xs}"
proof (induction r)
  case Nil
  then show ?case by auto
next
  case (Cons a r)
  obtain i n where a: "a = (i, n)" by (cases a)
  have "set (raster ((i, n) # r)) = {xs. length xs = Suc (length r) \<and> IsInside_axes ((i, n) # r) xs}"
  proof (intro set_eqI iffI)
    fix xs assume "xs \<in> set (raster ((i, n) # r))"
    then obtain rest k where "rest \<in> set (raster r)" "k < n" "xs = (i + int k) # rest"
      by auto
    then show "xs \<in> {xs. length xs = Suc (length r) \<and> IsInside_axes ((i, n) # r) xs}"
      using Cons.IH by auto
  next
    fix xs assume "xs \<in> {xs. length xs = Suc (length r) \<and> IsInside_axes ((i, n) # r) xs}"
    then obtain x rest where xs: "xs = x # rest" "length rest = length r"
      "i \<le> x" "x < i + int n" "IsInside_axes r rest"
      by (cases xs) auto
    then have "rest \<in> set (raster r)" using Cons.IH by simp
    moreover have "nat (x - i) < n" "x = i + int (nat (x - i))" using xs by auto
    ultimately show "xs \<in> set (raster ((i, n) # r))"
      using xs(1) by (auto intro!: bexI[of _ rest] image_eqI[of _ _ "nat (x - i)"])
  qed
  then show ?case using a by simp
qed

lemma offset_axes_bounds:
  "xs \<in> set (raster r) \<Longrightarrow> 0 \<le> offset_axes r xs \<and> offset_axes r xs < int (prod_list (map snd r))"
proof -
  assume "xs \<in> set (raster r)"
  then obtain k where k: "k < length (raster r)" "raster r ! k = xs"
    by (auto simp: in_set_conv_nth)
  then have "offset_axes r xs = int k"
    using offset_raster_nth[of k r] by (simp add: length_raster)
  then show ?thesis using k by (simp add: length_raster)
qed

lemma IsInside_axes_nth:
  "length is = length ns \<Longrightarrow> length ns = length xs \<Longrightarrow>
   IsInside_axes (zip is ns) xs = (\<forall>d<length xs. is ! d \<le> xs ! d \<and> xs ! d < is ! d + int (ns ! d))"
proof (induction "is" ns xs rule: list_induct3)
  case Nil
  then show ?case by simp
next
  case (Cons i "is" n ns x xs)
  show ?case
    by (simp add: Cons.IH All_less_Suc2)
qed

lemma length_fold_update:
  "length (fold (\<lambda>i (scales::'a list). scales[f i := v]) js sc) = length sc"
  by (induction js arbitrary: sc) simp_all

lemma nth_fold_update:
  "k < length sc \<Longrightarrow>
   fold (\<lambda>i (scales::'a list). scales[f i := v]) js sc ! k = (if k \<in> f ` set js then v else sc ! k)"
proof (induction js arbitrary: sc)
  case Nil
  then show ?case by simp
next
  case (Cons j js)
  have "fold (\<lambda>i scales. scales[f i := v]) js (sc[f j := v]) ! k
      = (if k \<in> f ` set js then v else sc[f j := v] ! k)"
    using Cons.prems by (intro Cons.IH) simp
  then show ?case using Cons.prems by (auto simp: nth_list_update)
qed

lemma length_freeze_point: "length (freeze_point D coeff offset index sc) = length sc"
  by (simp add: freeze_point_def Let_def length_fold_update)

lemma nth_freeze_point:
  "k < length sc \<Longrightarrow>
   freeze_point D coeff offset index sc ! k =
     (if k \<in> point_position coeff offset index ` {..<D} then infScale else sc ! k)"
proof -
  assume k: "k < length sc"
  have "set [0..<D] = {..<D}" by auto
  then show ?thesis
    using nth_fold_update[OF k, of "\<lambda>i. scalesIndex (ulong_of_long (ComputeOffset coeff index)) i offset" infScale "[0..<D]"]
    by (simp add: freeze_point_def Let_def point_position_def[abs_def])
qed

lemma length_freeze_walk:
  "length (fold (freeze_point D coeff offset) pts sc) = length sc"
  by (induction pts arbitrary: sc) (simp_all add: length_freeze_point)

lemma nth_freeze_walk:
  "k < length sc \<Longrightarrow>
   fold (freeze_point D coeff offset) pts sc ! k =
     (if \<exists>index\<in>set pts. k \<in> point_position coeff offset index ` {..<D}
      then infScale else sc ! k)"
proof (induction pts arbitrary: sc)
  case Nil
  then show ?case by simp
next
  case (Cons p pts)
  have k': "k < length (freeze_point D coeff offset p sc)"
    using Cons.prems by (simp add: length_freeze_point)
  show ?case
    using Cons.IH[OF k'] nth_freeze_point[OF Cons.prems, of D coeff offset p]
    by auto
qed

lemma inset_size_exact:
  assumes "2 * w < sz" "sz \<le> 2 ^ 32" "sz - 2 * w < 2 ^ 31"
  shows "inset_size sz w = sz - 2 * w"
proof -
  have a: "uint_times 2 w = 2 * w"
    using assms by (simp add: uint_times_def)
  have b: "ulong_minus sz (2 * w) = sz - 2 * w"
  proof -
    define M :: nat where "M = 2 ^ 64"
    have lt: "sz < M" "2 * w < M" using assms by (simp_all add: M_def)
    have e: "M + sz - 2 * w = (sz - 2 * w) + M" using assms by simp
    have "sz - 2 * w < M" using lt by simp
    then have "((sz - 2 * w) + M) mod M = sz - 2 * w" by simp
    then have "(M + sz - 2 * w) mod M = sz - 2 * w" by (simp only: e)
    then have "(M + sz mod M - (2 * w) mod M) mod M = sz - 2 * w"
      using lt by (simp only: mod_less)
    then show ?thesis by (simp add: ulong_minus_def M_def)
  qed
  have c: "int_of_ulong (sz - 2 * w) = int (sz - 2 * w)"
    using assms by (simp add: int_of_ulong_def Let_def)
  have d: "uint_of_int (int (sz - 2 * w)) = sz - 2 * w"
  proof -
    have "int (sz - 2 * w) mod 2 ^ 32 = int (sz - 2 * w)"
      using assms by (intro mod_pos_pos_trivial) simp_all
    then show ?thesis by (simp add: uint_of_int_def)
  qed
  have e: "vnl_math_max 0 (int (sz - 2 * w)) = int (sz - 2 * w)"
    using assms by (simp add: vnl_math_max_def)
  show ?thesis
    by (simp only: inset_size_def a b c e d)
qed

lemma inset_loop_Inr:
  "\<forall>i\<in>set js. inset_size (gs ! i) w \<noteq> 0 \<Longrightarrow>
   inset_loop w gs gi js =
     Inr (map (\<lambda>i. inset_size (gs ! i) w) js, map (\<lambda>i. gi ! i + int w) js)"
  by (induction js) simp_all

lemma inset_loop_Inl:
  "j \<in> set js \<Longrightarrow> inset_size (gs ! j) w = 0 \<Longrightarrow>
   \<exists>i\<in>set js. inset_loop w gs gi js = Inl i \<and> inset_size (gs ! i) w = 0"
proof (induction js)
  case Nil
  then show ?case by simp
next
  case (Cons a js)
  show ?case
  proof (cases "inset_size (gs ! a) w = 0")
    case True
    then show ?thesis by simp
  next
    case False
    with Cons.prems have "j \<in> set js" by auto
    from Cons.IH[OF this Cons.prems(2)] False show ?thesis by auto
  qed
qed

lemma pixels_axes:
  "length (GetIndex r) = length (GetSize r) \<Longrightarrow>
   prod_list (map snd (axes r)) = GetNumberOfPixels r"
  by (simp add: axes_def GetNumberOfPixels_def)

lemma offset_in_region:
  assumes "length (GetIndex r) = length (GetSize r)" "index \<in> set (region_indices r)"
  shows "0 \<le> ComputeOffset r index" "nat (ComputeOffset r index) < GetNumberOfPixels r"
proof -
  have "0 \<le> offset_axes (axes r) index \<and> offset_axes (axes r) index < int (GetNumberOfPixels r)"
    using offset_axes_bounds[of index "axes r"] assms
    by (simp add: region_indices_def pixels_axes)
  then show "0 \<le> ComputeOffset r index" "nat (ComputeOffset r index) < GetNumberOfPixels r"
    by (simp_all add: ComputeOffset_def nat_less_iff)
qed

lemma block_bound:
  fixes a i D P :: nat
  assumes "a < P" "i < D"
  shows "a + i * P < D * P"
proof -
  have "a + i * P < Suc i * P" using assms by simp
  also have "\<dots> \<le> D * P" using assms by (intro mult_le_mono1) simp
  finally show ?thesis .
qed

lemma point_position_exact:
  assumes len: "length (GetIndex r) = length (GetSize r)"
    and idx: "index \<in> set (region_indices r)"
    and i: "i < D"
    and N: "D * GetNumberOfPixels r \<le> 2 ^ 32"
  shows "point_position r (GetNumberOfPixels r) index i =
           nat (ComputeOffset r index) + i * GetNumberOfPixels r"
proof -
  define P where "P = GetNumberOfPixels r"
  define a where "a = nat (ComputeOffset r index)"
  have a: "a < P" "0 \<le> ComputeOffset r index"
    using offset_in_region[OF len idx] by (simp_all add: a_def P_def)
  have lt: "a + i * P < D * P" using block_bound[OF a(1) i] .
  have lt32: "a + i * P < 2 ^ 32" using lt N by (simp add: P_def)
  have lt64: "a + i * P < 2 ^ 64"
  proof -
    have "(2::nat) ^ 32 \<le> 2 ^ 64" by simp
    then show ?thesis using lt32 by linarith
  qed
  have iP: "i * P < 2 ^ 64" using lt64 by linarith
  have "ComputeOffset r index < 2 ^ 64" using lt64 a by (simp add: a_def)
  then have "ComputeOffset r index mod 2 ^ 64 = ComputeOffset r index"
    using a(2) by (intro mod_pos_pos_trivial) simp_all
  then have 1: "ulong_of_long (ComputeOffset r index) = a"
    by (simp add: ulong_of_long_def a_def)
  have 2: "ulong_times i P = i * P"
    using iP by (simp add: ulong_times_def)
  have 3: "ulong_plus a (i * P) = a + i * P"
    using lt64 by (simp add: ulong_plus_def)
  have 4: "uint_of_ulong (a + i * P) = a + i * P"
    using lt32 by (simp add: uint_of_ulong_def)
  show ?thesis
    unfolding point_position_def scalesIndex_def P_def[symmetric] 1 2 3 4
    by (simp add: a_def)
qed

lemma position_inj:
  fixes a a' i i' P :: nat
  assumes "a < P" "a' < P" "a + i * P = a' + i' * P"
  shows "a = a' \<and> i = i'"
proof -
  have "(a + i * P) mod P = (a' + i' * P) mod P" "(a + i * P) div P = (a' + i' * P) div P"
    by (simp_all only: assms(3))
  then show ?thesis using assms(1,2) by simp
qed

lemma walk_nth:
  assumes len: "length (GetIndex r) = length (GetSize r)"
    and N: "D * GetNumberOfPixels r \<le> 2 ^ 32"
    and pts: "set pts \<subseteq> set (region_indices r)"
    and k: "k < length sc"
  shows "fold (freeze_point D r (GetNumberOfPixels r)) pts sc ! k =
     (if \<exists>index\<in>set pts. \<exists>i<D. k = nat (ComputeOffset r index) + i * GetNumberOfPixels r
      then infScale else sc ! k)"
proof -
  have "(\<exists>index\<in>set pts. k \<in> point_position r (GetNumberOfPixels r) index ` {..<D})
      = (\<exists>index\<in>set pts. \<exists>i<D. k = nat (ComputeOffset r index) + i * GetNumberOfPixels r)"
  proof (intro bex_cong refl)
    fix index assume "index \<in> set pts"
    then have "index \<in> set (region_indices r)" using pts by auto
    then have "\<And>i. i < D \<Longrightarrow> point_position r (GetNumberOfPixels r) index i =
           nat (ComputeOffset r index) + i * GetNumberOfPixels r"
      using point_position_exact[OF len _ _ N] by simp
    then show "(k \<in> point_position r (GetNumberOfPixels r) index ` {..<D})
      = (\<exists>i<D. k = nat (ComputeOffset r index) + i * GetNumberOfPixels r)"
      by (auto simp: image_iff)
  qed
  then show ?thesis
    using nth_freeze_walk[OF k, of D r "GetNumberOfPixels r" pts] by simp
qed

lemma prod_list_pos:
  fixes ns :: "nat list"
  shows "\<forall>x\<in>set ns. 0 < x \<Longrightarrow> 0 < prod_list ns"
  by (induction ns) simp_all

lemma member_le_prod_list:
  fixes ns :: "nat list"
  shows "\<forall>x\<in>set ns. 0 < x \<Longrightarrow> n \<in> set ns \<Longrightarrow> n \<le> prod_list ns"
proof (induction ns)
  case Nil
  then show ?case by simp
next
  case (Cons a ns)
  have pos: "0 < prod_list ns" using Cons.prems(1) by (intro prod_list_pos) simp
  show ?case
  proof (cases "n = a")
    case True
    then show ?thesis using pos by simp
  next
    case False
    then have "n \<le> prod_list ns" using Cons by simp
    moreover have "0 < a" using Cons.prems(1) by simp
    ultimately have "n * 1 \<le> prod_list ns * a"
      by (intro mult_le_mono) simp_all
    then show ?thesis by (simp add: mult.commute)
  qed
qed

lemma map_nth_upt: "map (\<lambda>i. f (xs ! i)) [0..<length xs] = map f xs"
proof -
  have "map (\<lambda>i. f (xs ! i)) [0..<length xs] = map f (map (\<lambda>i. xs ! i) [0..<length xs])"
    by simp
  then show ?thesis by (simp only: map_nth)
qed

lemma IsInside_inset:
  assumes len: "length (GetIndex r) = length (GetSize r)" "length (GetSize r) = length index"
    and w: "\<forall>d<length index. 2 * w < GetSize r ! d"
  shows "IsInside (inset_region r w) index =
    (\<not> (\<exists>d<length index. index ! d < GetIndex r ! d + int w
           \<or> GetIndex r ! d + int (GetSize r ! d) - int w \<le> index ! d))"
proof -
  have "IsInside (inset_region r w) index =
     (\<forall>d<length index. map (\<lambda>i. i + int w) (GetIndex r) ! d \<le> index ! d
        \<and> index ! d < map (\<lambda>i. i + int w) (GetIndex r) ! d + int (map (\<lambda>n. n - 2 * w) (GetSize r) ! d))"
    unfolding IsInside_def axes_def inset_region_def
    using len by (simp add: IsInside_axes_nth)
  also have "\<dots> = (\<forall>d<length index. GetIndex r ! d + int w \<le> index ! d
        \<and> index ! d < GetIndex r ! d + int (GetSize r ! d) - int w)"
  proof (intro all_cong1 imp_cong refl)
    fix d assume d: "d < length index"
    then have "2 * w < GetSize r ! d" using w by simp
    then have "int (GetSize r ! d - 2 * w) = int (GetSize r ! d) - 2 * int w" by simp
    then show "(map (\<lambda>i. i + int w) (GetIndex r) ! d \<le> index ! d
        \<and> index ! d < map (\<lambda>i. i + int w) (GetIndex r) ! d + int (map (\<lambda>n. n - 2 * w) (GetSize r) ! d))
      = (GetIndex r ! d + int w \<le> index ! d
        \<and> index ! d < GetIndex r ! d + int (GetSize r ! d) - int w)"
      using d len by auto
  qed
  also have "\<dots> = (\<not> (\<exists>d<length index. index ! d < GetIndex r ! d + int w
           \<or> GetIndex r ! d + int (GetSize r ! d) - int w \<le> index ! d))"
    by auto
  finally show ?thesis .
qed

lemma length_region_index:
  "length (GetIndex r) = length (GetSize r) \<Longrightarrow> index \<in> set (region_indices r) \<Longrightarrow>
   length index = length (GetSize r)"
  by (simp add: region_indices_def set_raster axes_def)

lemma inset_indices_subset:
  assumes len: "length (GetIndex r) = length (GetSize r)"
    and w: "\<forall>d<length (GetSize r). 2 * w < GetSize r ! d"
  shows "set (region_indices (inset_region r w)) =
         {index \<in> set (region_indices r). IsInside (inset_region r w) index}"
proof -
  have len': "length (GetIndex (inset_region r w)) = length (GetSize (inset_region r w))"
    using len by (simp add: inset_region_def)
  have ax: "length (axes r) = length (GetSize r)" "length (axes (inset_region r w)) = length (GetSize r)"
    using len by (simp_all add: axes_def inset_region_def)
  show ?thesis
  proof (intro set_eqI iffI)
    fix index assume a: "index \<in> set (region_indices (inset_region r w))"
    then have l: "length index = length (GetSize r)" and i: "IsInside (inset_region r w) index"
      using ax by (simp_all add: region_indices_def set_raster IsInside_def)
    have w': "\<forall>d<length index. 2 * w < GetSize r ! d" using w l by simp
    have "\<forall>d<length index. GetIndex r ! d \<le> index ! d \<and> index ! d < GetIndex r ! d + int (GetSize r ! d)"
      using i IsInside_inset[OF len l[symmetric] w'] by auto
    then have "IsInside_axes (axes r) index"
      using len l by (simp add: axes_def IsInside_axes_nth)
    then show "index \<in> {index \<in> set (region_indices r). IsInside (inset_region r w) index}"
      using l i ax by (simp add: region_indices_def set_raster)
  next
    fix index assume "index \<in> {index \<in> set (region_indices r). IsInside (inset_region r w) index}"
    then show "index \<in> set (region_indices (inset_region r w))"
      using ax by (simp add: region_indices_def set_raster IsInside_def)
  qed
qed

lemma length_exclusion_walk:
  assumes len: "length (GetIndex r) = length (GetSize r)"
    and w: "\<forall>d<length (GetSize r). 2 * w < GetSize r ! d"
  shows "length (exclusion_walk r (inset_region r w)) =
         prod_list (GetSize r) - prod_list (map (\<lambda>n. n - 2 * w) (GetSize r))"
proof -
  let ?all = "region_indices r"
  let ?in = "IsInside (inset_region r w)"
  have "set (filter ?in ?all) = set (region_indices (inset_region r w))"
    using inset_indices_subset[OF len w] by simp
  moreover have "distinct (filter ?in ?all)" "distinct (region_indices (inset_region r w))"
    by (simp_all add: region_indices_def distinct_raster)
  ultimately have "length (filter ?in ?all) = length (region_indices (inset_region r w))"
    by (metis distinct_card)
  also have "\<dots> = prod_list (map (\<lambda>n. n - 2 * w) (GetSize r))"
    using len by (simp add: region_indices_def length_raster axes_def inset_region_def)
  finally have 1: "length (filter ?in ?all) = prod_list (map (\<lambda>n. n - 2 * w) (GetSize r))" .
  have 2: "length ?all = prod_list (GetSize r)"
    using len by (simp add: region_indices_def length_raster axes_def)
  have "length (filter ?in ?all) + length (filter (\<lambda>x. \<not> ?in x) ?all) = length ?all"
    by (rule sum_length_filter_compl)
  then show ?thesis using 1 2 by (simp add: exclusion_walk_def)
qed

lemma inset_loop_exact:
  assumes lenI: "length gridindex = D" and lenS: "length gridsize = D"
    and big: "\<forall>d<D. 2 * w < gridsize ! d"
    and small: "\<forall>d<D. gridsize ! d - 2 * w < 2 ^ 31"
    and N32: "D * prod_list gridsize \<le> 2 ^ 32"
  shows "inset_loop w gridsize gridindex [0..<D] =
           Inr (map (\<lambda>n. n - 2 * w) gridsize, map (\<lambda>i. i + int w) gridindex)"
proof -
  have pos: "\<forall>x\<in>set gridsize. 0 < x"
  proof
    fix x assume "x \<in> set gridsize"
    then obtain d where "d < D" "gridsize ! d = x"
      using lenS by (auto simp: in_set_conv_nth)
    then have "2 * w < x" using big by auto
    then show "0 < x" by simp
  qed
  have le32: "gridsize ! d \<le> 2 ^ 32" if "d < D" for d
  proof -
    have "gridsize ! d \<le> prod_list gridsize"
      using that lenS pos by (intro member_le_prod_list) simp_all
    also have "\<dots> \<le> D * prod_list gridsize" using that by simp
    finally show ?thesis using N32 by simp
  qed
  have ex: "inset_size (gridsize ! d) w = gridsize ! d - 2 * w" if "d < D" for d
    using that big small le32 by (intro inset_size_exact) simp_all
  have nz: "\<forall>i\<in>set [0..<D]. inset_size (gridsize ! i) w \<noteq> 0"
    using ex big by (auto simp: not_le)
  have "inset_loop w gridsize gridindex [0..<D] =
     Inr (map (\<lambda>i. inset_size (gridsize ! i) w) [0..<D], map (\<lambda>i. gridindex ! i + int w) [0..<D])"
    by (rule inset_loop_Inr[OF nz])
  moreover have "map (\<lambda>i. inset_size (gridsize ! i) w) [0..<D] = map (\<lambda>i. gridsize ! i - 2 * w) [0..<D]"
    using ex by simp
  moreover have "map (\<lambda>i. gridsize ! i - 2 * w) [0..<D] = map (\<lambda>n. n - 2 * w) gridsize"
    using map_nth_upt[of "\<lambda>n. n - 2 * w" gridsize] lenS by simp
  moreover have "map (\<lambda>i. gridindex ! i + int w) [0..<D] = map (\<lambda>i. i + int w) gridindex"
    using map_nth_upt[of "\<lambda>i. i + int w" gridindex] lenI by simp
  ultimately show ?thesis by simp
qed

lemma SetOptimizerScales_unfold:
  assumes D0: "0 < D" and w0: "0 < w"
    and lenI: "length (GetIndex (GetGridRegion (m_PeriodicBSplineTransform s))) = D"
    and lenS: "length (GetSize (GetGridRegion (m_PeriodicBSplineTransform s))) = D"
    and big: "\<forall>d<D. 2 * w < GetSize (GetGridRegion (m_PeriodicBSplineTransform s)) ! d"
    and small: "\<forall>d<D. GetSize (GetGridRegion (m_PeriodicBSplineTransform s)) ! d - 2 * w < 2 ^ 31"
    and N32: "GetNumberOfParameters D (m_PeriodicBSplineTransform s) \<le> 2 ^ 32"
  shows "SetOptimizerScales D w s =
    (None, SetScales
       (fold (freeze_point D (GetGridRegion (m_PeriodicBSplineTransform s))
                (GetNumberOfPixels (GetGridRegion (m_PeriodicBSplineTransform s))))
          (exclusion_walk (GetGridRegion (m_PeriodicBSplineTransform s))
             (inset_region (GetGridRegion (m_PeriodicBSplineTransform s)) w))
          (replicate (GetNumberOfParameters D (m_PeriodicBSplineTransform s)) 1)) s)"
proof -
  define r where "r = GetGridRegion (m_PeriodicBSplineTransform s)"
  have N: "GetNumberOfParameters D (m_PeriodicBSplineTransform s) = D * GetNumberOfPixels r"
    by (simp add: GetNumberOfParameters_def r_def)
  have N32': "D * prod_list (GetSize r) \<le> 2 ^ 32"
    using N32 by (simp add: N GetNumberOfPixels_def)
  have loop: "inset_loop w (GetSize r) (GetIndex r) [0..<D] =
           Inr (map (\<lambda>n. n - 2 * w) (GetSize r), map (\<lambda>i. i + int w) (GetIndex r))"
    using inset_loop_exact[OF _ _ _ _ N32'] lenI lenS big small by (simp add: r_def)
  have dv: "D * GetNumberOfPixels r div D = GetNumberOfPixels r" using D0 by simp
  show ?thesis
    unfolding SetOptimizerScales_def Let_def r_def[symmetric] N dv loop
    using w0 by (simp add: inset_region_def)
qed

lemma region_index_of_offset:
  assumes len: "length (GetIndex r) = length (GetSize r)"
    and a: "a < GetNumberOfPixels r"
  shows "\<exists>index\<in>set (region_indices r). nat (ComputeOffset r index) = a"
proof -
  have l: "a < length (raster (axes r))"
    using a len by (simp add: length_raster pixels_axes)
  have "offset_axes (axes r) (raster (axes r) ! a) = int a"
    using a len by (intro offset_raster_nth) (simp add: pixels_axes)
  then have "nat (ComputeOffset r (raster (axes r) ! a)) = a"
    by (simp add: ComputeOffset_def)
  moreover have "raster (axes r) ! a \<in> set (region_indices r)"
    using l by (simp add: region_indices_def)
  ultimately show ?thesis by blast
qed

lemma offset_inj_region:
  assumes len: "length (GetIndex r) = length (GetSize r)"
    and "index \<in> set (region_indices r)" "index' \<in> set (region_indices r)"
    and "nat (ComputeOffset r index) = nat (ComputeOffset r index')"
  shows "index = index'"
proof -
  have "0 \<le> ComputeOffset r index" "0 \<le> ComputeOffset r index'"
    using offset_in_region(1)[OF len] assms by simp_all
  then have "offset_axes (axes r) index = offset_axes (axes r) index'"
    using assms(4) by (simp add: ComputeOffset_def)
  then show ?thesis
    using inj_on_offset_raster[of "axes r"] assms(2,3)
    by (auto simp: inj_on_def region_indices_def)
qed

lemma frozen_position_iff:
  assumes len: "length (GetIndex r) = length (GetSize r)"
    and pts: "set pts \<subseteq> set (region_indices r)"
    and idx: "index \<in> set (region_indices r)" and i: "i < D"
  shows "(\<exists>index'\<in>set pts. \<exists>i'<D. nat (ComputeOffset r index) + i * GetNumberOfPixels r
            = nat (ComputeOffset r index') + i' * GetNumberOfPixels r)
       = (index \<in> set pts)"
proof
  assume "\<exists>index'\<in>set pts. \<exists>i'<D. nat (ComputeOffset r index) + i * GetNumberOfPixels r
            = nat (ComputeOffset r index') + i' * GetNumberOfPixels r"
  then obtain index' i' where p: "index' \<in> set pts" "i' < D"
    "nat (ComputeOffset r index) + i * GetNumberOfPixels r
            = nat (ComputeOffset r index') + i' * GetNumberOfPixels r" by blast
  have r': "index' \<in> set (region_indices r)" using p(1) pts by auto
  have "nat (ComputeOffset r index) = nat (ComputeOffset r index')"
    using position_inj[OF offset_in_region(2)[OF len idx] offset_in_region(2)[OF len r'] p(3)]
    by simp
  then have "index = index'" using offset_inj_region[OF len idx r'] by simp
  then show "index \<in> set pts" using p(1) by simp
next
  assume "index \<in> set pts"
  then show "\<exists>index'\<in>set pts. \<exists>i'<D. nat (ComputeOffset r index) + i * GetNumberOfPixels r
            = nat (ComputeOffset r index') + i' * GetNumberOfPixels r"
    using i by blast
qed

lemma card_frozen_positions:
  assumes len: "length (GetIndex r) = length (GetSize r)"
    and pts: "set pts \<subseteq> set (region_indices r)" and dist: "distinct pts"
  shows "card {k. \<exists>index\<in>set pts. \<exists>i<D. k = nat (ComputeOffset r index) + i * GetNumberOfPixels r}
       = length pts * D"
proof -
  let ?f = "\<lambda>(index, i). nat (ComputeOffset r index) + i * GetNumberOfPixels r"
  have eq: "{k. \<exists>index\<in>set pts. \<exists>i<D. k = nat (ComputeOffset r index) + i * GetNumberOfPixels r}
       = ?f ` (set pts \<times> {..<D})"
    by (auto simp: image_iff)
  have inj: "inj_on ?f (set pts \<times> {..<D})"
  proof (rule inj_onI)
    fix x y assume x: "x \<in> set pts \<times> {..<D}" and y: "y \<in> set pts \<times> {..<D}" and e: "?f x = ?f y"
    obtain a i where xa: "x = (a, i)" by (cases x)
    obtain b j where yb: "y = (b, j)" by (cases y)
    have ra: "a \<in> set (region_indices r)" and rb: "b \<in> set (region_indices r)"
      using x y xa yb pts by auto
    have e': "nat (ComputeOffset r a) + i * GetNumberOfPixels r
            = nat (ComputeOffset r b) + j * GetNumberOfPixels r"
      using e xa yb by simp
    have "nat (ComputeOffset r a) = nat (ComputeOffset r b) \<and> i = j"
      using position_inj[OF offset_in_region(2)[OF len ra] offset_in_region(2)[OF len rb] e'] .
    then show "x = y" using offset_inj_region[OF len ra rb] xa yb by simp
  qed
  have "card (?f ` (set pts \<times> {..<D})) = card (set pts \<times> {..<D})"
    by (rule card_image[OF inj])
  also have "\<dots> = length pts * D"
    using dist by (simp add: card_cartesian_product distinct_card)
  finally show ?thesis by (simp only: eq)
qed

lemma infScale_neq_one: "infScale \<noteq> 1"
  by (simp add: infScale_def)


section \<open>SetOptimizerScales: the unit scales, the exception and the walk\<close>

lemma SetOptimizerScales_0:
  "SetOptimizerScales D 0 s =
     (None, SetScales (replicate (GetNumberOfParameters D (m_PeriodicBSplineTransform s)) 1) s)"
  by (simp add: SetOptimizerScales_def Let_def)

lemma SetOptimizerScales_cases:
  "edgeWidth \<noteq> 0 \<Longrightarrow>
   inset_loop edgeWidth (GetSize (GetGridRegion (m_PeriodicBSplineTransform s)))
     (GetIndex (GetGridRegion (m_PeriodicBSplineTransform s))) [0..<D] = Inl i \<Longrightarrow>
   SetOptimizerScales D edgeWidth s =
     (Some (ExceptionObject ''ERROR: the PassiveEdgeWidth is too large!''),
      s\<lparr>xout_error := xout_error s @
          edge_error_message edgeWidth i
            (GetSize (GetGridRegion (m_PeriodicBSplineTransform s)) ! i)\<rparr>)"
  by (simp add: SetOptimizerScales_def Let_def)

lemma SetOptimizerScales_walks:
  "edgeWidth \<noteq> 0 \<Longrightarrow>
   inset_loop edgeWidth (GetSize (GetGridRegion (m_PeriodicBSplineTransform s)))
     (GetIndex (GetGridRegion (m_PeriodicBSplineTransform s))) [0..<D] =
       Inr (insetgridsize, insetgridindex) \<Longrightarrow>
   SetOptimizerScales D edgeWidth s =
     (None,
      SetScales
        (fold (freeze_point D (GetGridRegion (m_PeriodicBSplineTransform s))
                 (GetNumberOfParameters D (m_PeriodicBSplineTransform s) div D))
           (exclusion_walk (GetGridRegion (m_PeriodicBSplineTransform s))
              \<lparr>GetIndex = insetgridindex, GetSize = insetgridsize\<rparr>)
           (replicate (GetNumberOfParameters D (m_PeriodicBSplineTransform s)) 1)) s)"
  by (simp add: SetOptimizerScales_def Let_def)

lemma scales_values:
  assumes "fst (SetOptimizerScales D w s) = None"
    and "k < length (OptimizerScales (m_Registration (snd (SetOptimizerScales D w s))))"
  shows "OptimizerScales (m_Registration (snd (SetOptimizerScales D w s))) ! k = 1
       \<or> OptimizerScales (m_Registration (snd (SetOptimizerScales D w s))) ! k = infScale"
proof (cases "w = 0")
  case True
  then show ?thesis using assms(2)
    by (simp add: SetOptimizerScales_0 SetScales_def)
next
  case False
  let ?r = "GetGridRegion (m_PeriodicBSplineTransform s)"
  show ?thesis
  proof (cases "inset_loop w (GetSize ?r) (GetIndex ?r) [0..<D]")
    case (Inl i)
    then show ?thesis using assms(1) False by (simp add: SetOptimizerScales_cases)
  next
    case (Inr p)
    obtain a b where p: "p = (a, b)" by (cases p)
    have run: "SetOptimizerScales D w s = (None,
      SetScales
        (fold (freeze_point D ?r (GetNumberOfParameters D (m_PeriodicBSplineTransform s) div D))
           (exclusion_walk ?r \<lparr>GetIndex = b, GetSize = a\<rparr>)
           (replicate (GetNumberOfParameters D (m_PeriodicBSplineTransform s)) 1)) s)"
      using SetOptimizerScales_walks[OF False] Inr p by simp
    have k: "k < length (replicate (GetNumberOfParameters D (m_PeriodicBSplineTransform s)) (1::real))"
      using assms(2) by (simp add: run SetScales_def length_freeze_walk)
    show ?thesis
      using nth_freeze_walk[OF k] k by (simp add: run SetScales_def)
  qed
qed


lemma upt2: "[0..<2] = [0, Suc 0]"
  by (simp add: upt_rec)

lemma upt3: "[0..<3] = [0, Suc 0, 2]"
  by (simp add: upt_rec numeral_3_eq_3)

lemma example_inset: "inset_size 3 (Suc 0) = 1"
  by (simp add: inset_size_def uint_times_def ulong_minus_def int_of_ulong_def
      vnl_math_max_def uint_of_int_def Let_def)

lemma example_loop: "inset_loop (Suc 0) [3, 3] [0, 0] [0..<2] = Inr ([1, 1], [1, 1])"
  by (simp add: upt2 example_inset)

lemma example_walk:
  "exclusion_walk \<lparr>GetIndex = [0, 0], GetSize = [3, 3]\<rparr> \<lparr>GetIndex = [1, 1], GetSize = [Suc 0, Suc 0]\<rparr>
     = [[0,0],[1,0],[2,0],[0,1],[2,1],[0,2],[1,2],[2,2]]"
  by (simp add: exclusion_walk_def region_indices_def axes_def IsInside_def upt3)


lemma replicate18: "replicate 18 x = [x,x,x,x,x,x,x,x,x,x,x,x,x,x,x,x,x,x]"
  by (simp add: numeral_eq_Suc)

lemma example_scales:
  "SetOptimizerScales 2 1 example =
     (None, SetScales [10000, 10000, 10000, 10000, 1, 10000, 10000, 10000, 10000,
                       10000, 10000, 10000, 10000, 1, 10000, 10000, 10000, 10000] example)"
proof -
  have g: "GetGridRegion (m_PeriodicBSplineTransform example) = \<lparr>GetIndex = [0, 0], GetSize = [3, 3]\<rparr>"
    by (simp add: example_def)
  have n: "GetNumberOfParameters 2 (m_PeriodicBSplineTransform example) = 18"
    by (simp add: GetNumberOfParameters_def GetNumberOfPixels_def g)
  have "inset_loop 1 (GetSize (GetGridRegion (m_PeriodicBSplineTransform example)))
     (GetIndex (GetGridRegion (m_PeriodicBSplineTransform example))) [0..<2] = Inr ([1, 1], [1, 1])"
    using example_loop by (simp add: g)
  from SetOptimizerScales_walks[OF _ this] show ?thesis
    by (simp add: g n example_walk freeze_point_def ComputeOffset_def axes_def scalesIndex_def
        ulong_of_long_def ulong_plus_def ulong_times_def uint_of_ulong_def upt2 infScale_def
        Let_def replicate18)
qed



text \<open>
  Within the range of the 32-bit arithmetic of the loop over the axes, the exception is
  raised at the first axis \<open>i\<close> with \<open>size[i] - 2w \<le> 0\<close>, and the width, the axis and its
  size are reported.
\<close>


lemma inset_size_zero:
  assumes "sz \<le> 2 * w" "w \<le> 2 ^ 30"
  shows "inset_size sz w = 0"
proof -
  have w2: "2 * w \<le> 2 ^ 31" using assms(2) by simp
  have a: "uint_times 2 w = 2 * w"
    using w2 by (simp add: uint_times_def)
  define k where "k = 2 * w - sz"
  have k: "k \<le> 2 ^ 31" "sz + k = 2 * w" using assms(1) w2 by (simp_all add: k_def)
  have sz: "sz < 2 ^ 64" "2 * w < 2 ^ 64" using assms(1) w2 by simp_all
  have b: "ulong_minus sz (2 * w) = (2 ^ 64 - k) mod 2 ^ 64"
  proof -
    have "2 ^ 64 + sz - 2 * w = 2 ^ 64 - k" using k by simp
    then show ?thesis using sz by (simp add: ulong_minus_def)
  qed
  have c: "int_of_ulong ((2 ^ 64 - k) mod 2 ^ 64) \<le> 0"
  proof (cases "k = 0")
    case True
    then show ?thesis by (simp add: int_of_ulong_def)
  next
    case False
    have "(2::nat) ^ 64 - k = (2 ^ 32 - k) + (2 ^ 32 - 1) * 2 ^ 32"
      using k(1) by simp
    then have "(2 ^ 64 - k) mod 2 ^ 32 = (2 ^ 32 - k) mod 2 ^ 32"
      by (simp only: mod_mult_self1)
    also have "\<dots> = 2 ^ 32 - k" using False by simp
    finally have m: "(2 ^ 64 - k) mod 2 ^ 32 = 2 ^ 32 - k" .
    have lt: "2 ^ 64 - k < (2::nat) ^ 64" using False by simp
    have "\<not> int (2 ^ 32 - k) < 2 ^ 31" using k(1) by simp
    then show ?thesis
      using lt m k(1) by (simp add: int_of_ulong_def Let_def)
  qed
  show ?thesis
    using c by (simp add: inset_size_def a b vnl_math_max_def uint_of_int_def)
qed

lemma inset_loop_first:
  "\<forall>j\<in>set js. inset_size (gs ! j) w \<noteq> 0 \<Longrightarrow> inset_size (gs ! i) w = 0 \<Longrightarrow>
   inset_loop w gs gi (js @ i # rest) = Inl i"
  by (induction js) simp_all

lemma SetOptimizerScales_edge_too_large:
  fixes s :: Component
  defines "gridsize \<equiv> GetSize (GetGridRegion (m_PeriodicBSplineTransform s))"
  assumes w: "0 < w" "w \<le> 2 ^ 30"
    and i: "i < D" "gridsize ! i \<le> 2 * w"
    and before: "\<forall>j<i. 2 * w < gridsize ! j \<and> gridsize ! j < 2 ^ 31"
  shows "SetOptimizerScales D w s =
     (Some (ExceptionObject ''ERROR: the PassiveEdgeWidth is too large!''),
      s\<lparr>xout_error := xout_error s @ edge_error_message w i (gridsize ! i)\<rparr>)"
proof -
  have z: "inset_size (gridsize ! i) w = 0"
    using i(2) w(2) by (rule inset_size_zero)
  have nz: "\<forall>j\<in>set [0..<i]. inset_size (gridsize ! j) w \<noteq> 0"
  proof
    fix j assume "j \<in> set [0..<i]"
    then have j: "2 * w < gridsize ! j" "gridsize ! j < 2 ^ 31" using before by simp_all
    then have "inset_size (gridsize ! j) w = gridsize ! j - 2 * w"
      by (intro inset_size_exact) simp_all
    then show "inset_size (gridsize ! j) w \<noteq> 0" using j(1) by simp
  qed
  have "[0..<D] = [0..<i] @ i # [Suc i..<D]"
    using i(1) by (metis less_imp_add_positive upt_add_eq_append upt_conv_Cons zero_le add_0)
  then have "inset_loop w gridsize (GetIndex (GetGridRegion (m_PeriodicBSplineTransform s))) [0..<D]
             = Inl i"
    using inset_loop_first[OF nz z] by simp
  then show ?thesis
    using w(1) SetOptimizerScales_cases[of w s D i] by (simp add: gridsize_def)
qed

lemma edge_6_on_size_10:
  "GetSize (GetGridRegion (m_PeriodicBSplineTransform s)) ! 0 = 10 \<Longrightarrow> 0 < D \<Longrightarrow>
   SetOptimizerScales D 6 s =
     (Some (ExceptionObject ''ERROR: the PassiveEdgeWidth is too large!''),
      s\<lparr>xout_error := xout_error s @ edge_error_message 6 0 10\<rparr>)"
  using SetOptimizerScales_edge_too_large[of 6 0 D s] by simp


lemma point_position_uint: "point_position coeff offset index i < 2 ^ 32"
  by (simp add: point_position_def scalesIndex_def uint_of_ulong_def)

lemma untouched_beyond_uint:
  assumes "2 ^ 32 \<le> k" "k < length sc"
  shows "fold (freeze_point D coeff offset) pts sc ! k = sc ! k"
proof -
  have "\<not> (\<exists>index\<in>set pts. k \<in> point_position coeff offset index ` {..<D})"
  proof
    assume "\<exists>index\<in>set pts. k \<in> point_position coeff offset index ` {..<D}"
    then obtain index i where "k = point_position coeff offset index i" by auto
    then show False using point_position_uint[of coeff offset index i] assms(1) by simp
  qed
  then show ?thesis using nth_freeze_walk[OF assms(2), of D coeff offset pts] by simp
qed

section \<open>SetOptimizerScales: the edge band within the 32-bit range\<close>

text \<open>
  Let the grid have \<open>D\<close> axes, let \<open>0 < w\<close> and let \<open>size[d] - 2w > 0\<close> on every axis. As
  long as every inset size \<open>size[d] - 2w\<close> is below \<open>2^31\<close> and the number of parameters is
  below \<open>2^32\<close> (the source computes the first through an \<^verbatim>\<open>int\<close> and the positions of
  the entries through an \<^verbatim>\<open>unsigned int\<close>), \<^verbatim>\<open>SetOptimizerScales\<close> raises nothing and sets
  into the optimizer a vector of as many scales as there are parameters. For every
  control point of the grid and every block \<open>i < D\<close>, the entry at
  \<open>baseOffset + i * (numberOfParameters / D)\<close> is the sentinel if the multi-index of the
  point is outside \<open>[index[d] + w, index[d] + size[d] - w)\<close> on some axis, and 1 otherwise;
  every entry of the vector is at such a position; and the number of sentinel entries is
  \<open>(\<Prod> size[d] - \<Prod> (size[d] - 2w)) * D\<close>.
\<close>

lemma edge_band_in_range:
  fixes s :: Component and D w :: nat
  defines "r \<equiv> GetGridRegion (m_PeriodicBSplineTransform s)"
  defines "N \<equiv> GetNumberOfParameters D (m_PeriodicBSplineTransform s)"
  defines "scales \<equiv> OptimizerScales (m_Registration (snd (SetOptimizerScales D w s)))"
  assumes D0: "0 < D" and w0: "0 < w"
    and lenI: "length (GetIndex r) = D" and lenS: "length (GetSize r) = D"
    and big: "\<forall>d<D. 2 * w < GetSize r ! d"
    and small: "\<forall>d<D. GetSize r ! d - 2 * w < 2 ^ 31"
    and fits: "N < 2 ^ 32"
  shows "fst (SetOptimizerScales D w s) = None
    \<and> snd (SetOptimizerScales D w s) = SetScales scales s
    \<and> length scales = N
    \<and> (\<forall>index\<in>set (region_indices r). \<forall>i<D.
          scales ! (nat (ComputeOffset r index) + i * (N div D)) =
            (if \<exists>d<D. index ! d < GetIndex r ! d + int w
                    \<or> GetIndex r ! d + int (GetSize r ! d) - int w \<le> index ! d
             then infScale else 1))
    \<and> (\<forall>k<N. \<exists>index\<in>set (region_indices r). \<exists>i<D.
          k = nat (ComputeOffset r index) + i * (N div D))
    \<and> length (filter (\<lambda>x. x = infScale) scales) =
        (prod_list (GetSize r) - prod_list (map (\<lambda>n. n - 2 * w) (GetSize r))) * D"
proof -
  have N32: "N \<le> 2 ^ 32" using fits by simp
  define P where "P = GetNumberOfPixels r"
  define pts where "pts = exclusion_walk r (inset_region r w)"
  define sc where "sc = fold (freeze_point D r P) pts (replicate N 1)"
  have len: "length (GetIndex r) = length (GetSize r)" using lenI lenS by simp
  have N: "N = D * P" by (simp add: N_def P_def r_def GetNumberOfParameters_def)
  have dv: "N div D = P" using D0 by (simp add: N)
  have N32': "D * GetNumberOfPixels r \<le> 2 ^ 32" using N32 by (simp add: N P_def)
  have run: "SetOptimizerScales D w s = (None, SetScales sc s)"
    unfolding sc_def pts_def P_def r_def N_def
    using D0 w0 lenI lenS big small N32
    by (intro SetOptimizerScales_unfold) (simp_all add: r_def N_def)
  have scales: "scales = sc"
    by (simp add: scales_def run SetScales_def)
  have lsc: "length sc = N" by (simp add: sc_def length_freeze_walk)
  have sub: "set pts \<subseteq> set (region_indices r)"
    by (auto simp: pts_def exclusion_walk_def)
  have dist: "distinct pts"
    by (simp add: pts_def exclusion_walk_def region_indices_def distinct_raster)
  have nth: "sc ! k = (if \<exists>index\<in>set pts. \<exists>i<D. k = nat (ComputeOffset r index) + i * P
                       then infScale else 1)" if "k < N" for k
  proof -
    have "k < length (replicate N (1::real))" using that by simp
    from walk_nth[OF len N32' sub this]
    have "sc ! k = (if \<exists>index\<in>set pts. \<exists>i<D. k = nat (ComputeOffset r index) + i * P
                       then infScale else replicate N 1 ! k)"
      by (simp only: sc_def P_def)
    moreover have "replicate N (1::real) ! k = 1" using that by simp
    ultimately show ?thesis by (simp only:)
  qed
  have big': "\<forall>d<length (GetSize r). 2 * w < GetSize r ! d" using big lenS by simp
  have A: "sc ! (nat (ComputeOffset r index) + i * P) =
            (if \<exists>d<D. index ! d < GetIndex r ! d + int w
                    \<or> GetIndex r ! d + int (GetSize r ! d) - int w \<le> index ! d
             then infScale else 1)"
    if idx: "index \<in> set (region_indices r)" and i: "i < D" for index i
  proof -
    have k: "nat (ComputeOffset r index) + i * P < N"
      using block_bound[OF offset_in_region(2)[OF len idx] i] by (simp add: N P_def)
    have li: "length index = D" using length_region_index[OF len idx] lenS by simp
    have "(\<exists>index'\<in>set pts. \<exists>i'<D. nat (ComputeOffset r index) + i * P
              = nat (ComputeOffset r index') + i' * P) = (index \<in> set pts)"
      using frozen_position_iff[OF len sub idx i] by (simp add: P_def)
    also have "\<dots> = (\<not> IsInside (inset_region r w) index)"
      using idx by (simp add: pts_def exclusion_walk_def)
    also have "\<dots> = (\<exists>d<D. index ! d < GetIndex r ! d + int w
                    \<or> GetIndex r ! d + int (GetSize r ! d) - int w \<le> index ! d)"
      using IsInside_inset[of r index w] len lenS li big by simp
    finally show ?thesis using nth[OF k] by simp
  qed
  have B: "\<exists>index\<in>set (region_indices r). \<exists>i<D. k = nat (ComputeOffset r index) + i * P"
    if k: "k < N" for k
  proof -
    have P0: "0 < P" using k N by (cases "P = 0") simp_all
    have "k mod P < GetNumberOfPixels r" using P0 by (simp add: P_def)
    from region_index_of_offset[OF len this] obtain index where
      i: "index \<in> set (region_indices r)" "nat (ComputeOffset r index) = k mod P" by blast
    have "k div P < D" using k N P0 by (simp add: less_mult_imp_div_less)
    moreover have "k = nat (ComputeOffset r index) + (k div P) * P" using i(2) by simp
    ultimately show ?thesis using i(1) by blast
  qed
  have C: "length (filter (\<lambda>x. x = infScale) sc) =
        (prod_list (GetSize r) - prod_list (map (\<lambda>n. n - 2 * w) (GetSize r))) * D"
  proof -
    have "{k. k < length sc \<and> sc ! k = infScale}
        = {k. \<exists>index\<in>set pts. \<exists>i<D. k = nat (ComputeOffset r index) + i * GetNumberOfPixels r}"
    proof (intro set_eqI iffI)
      fix k assume "k \<in> {k. k < length sc \<and> sc ! k = infScale}"
      then have "k < N" "sc ! k = infScale" using lsc by simp_all
      then show "k \<in> {k. \<exists>index\<in>set pts. \<exists>i<D. k = nat (ComputeOffset r index) + i * GetNumberOfPixels r}"
        using nth[of k] infScale_neq_one by (auto simp: P_def split: if_splits)
    next
      fix k assume "k \<in> {k. \<exists>index\<in>set pts. \<exists>i<D. k = nat (ComputeOffset r index) + i * GetNumberOfPixels r}"
      then obtain index i where p: "index \<in> set pts" "i < D" "k = nat (ComputeOffset r index) + i * P"
        by (auto simp: P_def)
      have idx: "index \<in> set (region_indices r)" using p(1) sub by auto
      have k: "k < N"
        using block_bound[OF offset_in_region(2)[OF len idx] p(2)] p(3) by (simp add: N P_def)
      then have "sc ! k = infScale" using nth[OF k] p by auto
      then show "k \<in> {k. k < length sc \<and> sc ! k = infScale}" using k lsc by simp
    qed
    then have "length (filter (\<lambda>x. x = infScale) sc) = length pts * D"
      using card_frozen_positions[OF len sub dist, of D]
      by (simp add: length_filter_conv_card)
    then show ?thesis
      using length_exclusion_walk[OF len big'] by (simp add: pts_def)
  qed
  show ?thesis
    unfolding scales dv using run lsc A B C by simp
qed

lemma example_edge_band:
  "fst (SetOptimizerScales 2 1 example) = None
   \<and> length (OptimizerScales (m_Registration (snd (SetOptimizerScales 2 1 example)))) = 18
   \<and> length (filter (\<lambda>x. x = infScale)
         (OptimizerScales (m_Registration (snd (SetOptimizerScales 2 1 example))))) = 16"
proof -
  let ?r = "GetGridRegion (m_PeriodicBSplineTransform example)"
  have g: "?r = \<lparr>GetIndex = [0, 0], GetSize = [3, 3]\<rparr>"
    by (simp add: example_def)
  have n: "GetNumberOfParameters 2 (m_PeriodicBSplineTransform example) = 18"
    by (simp add: GetNumberOfParameters_def GetNumberOfPixels_def g)
  have h1: "(0::nat) < 2" and h2: "(0::nat) < 1" by simp_all
  have h3: "length (GetIndex ?r) = 2" and h4: "length (GetSize ?r) = 2" by (simp_all add: g)
  have h5: "\<forall>d<2. 2 * 1 < GetSize ?r ! d"
    by (auto simp: g less_2_cases_iff)
  have h6: "\<forall>d<2. GetSize ?r ! d - 2 * 1 < 2 ^ 31"
    by (auto simp: g less_2_cases_iff)
  have h7: "GetNumberOfParameters 2 (m_PeriodicBSplineTransform example) < 2 ^ 32"
    by (simp add: n)
  from edge_band_in_range[OF h1 h2 h3 h4 h5 h6 h7] show ?thesis
    by (simp add: n g)
qed

section \<open>SetOptimizerScales: the claims\<close>

text \<open>
  Claim C1. For every grid and every edge width \<open>w > 0\<close> with \<open>size[d] - 2w > 0\<close> on every
  axis, the entries of the control points outside the inset region are to be the
  sentinel, in every block, and all other entries are to be 1. The source does not
  achieve this on a grid of size \<open>(2000, 2000, 2000)\<close> with edge width 1, which has
  24000000000 parameters. The control point \<open>(1999, 1999, 1999)\<close> is in the edge band and
  its entry of the third block is at position \<open>7999999999 + 2 * 8000000000\<close>; the source
  converts this position to \<^verbatim>\<open>unsigned int\<close> and writes the sentinel at position
  \<open>23999999999 mod 2^32 = 2525163519\<close> instead. So the entry 23999999999 of an edge point
  keeps the value 1, and the entry 2525163519, which is the entry of the first block of
  the interior point \<open>(1519, 581, 631)\<close>, is the sentinel.
\<close>

theorem SetOptimizerScales_edge_entry_missed:
  "(0::nat) < 1 \<and> 2 * 1 < (2000::nat)
   \<and> [1999, 1999, 1999] \<in> set (region_indices \<lparr>GetIndex = [0, 0, 0], GetSize = [2000, 2000, 2000]\<rparr>)
   \<and> \<not> IsInside (inset_region \<lparr>GetIndex = [0, 0, 0], GetSize = [2000, 2000, 2000]\<rparr> 1) [1999, 1999, 1999]
   \<and> nat (ComputeOffset \<lparr>GetIndex = [0, 0, 0], GetSize = [2000, 2000, 2000]\<rparr> [1999, 1999, 1999])
         + 2 * (GetNumberOfParameters 3
                  (m_PeriodicBSplineTransform (with_grid [0, 0, 0] [2000, 2000, 2000] example)) div 3)
       = 23999999999
   \<and> [1519, 581, 631] \<in> set (region_indices \<lparr>GetIndex = [0, 0, 0], GetSize = [2000, 2000, 2000]\<rparr>)
   \<and> IsInside (inset_region \<lparr>GetIndex = [0, 0, 0], GetSize = [2000, 2000, 2000]\<rparr> 1) [1519, 581, 631]
   \<and> nat (ComputeOffset \<lparr>GetIndex = [0, 0, 0], GetSize = [2000, 2000, 2000]\<rparr> [1519, 581, 631])
         + 0 * (GetNumberOfParameters 3
                  (m_PeriodicBSplineTransform (with_grid [0, 0, 0] [2000, 2000, 2000] example)) div 3)
       = 2525163519
   \<and> fst (SetOptimizerScales 3 1 (with_grid [0, 0, 0] [2000, 2000, 2000] example)) = None
   \<and> length (OptimizerScales (m_Registration
         (snd (SetOptimizerScales 3 1 (with_grid [0, 0, 0] [2000, 2000, 2000] example)))))
       = 24000000000
   \<and> OptimizerScales (m_Registration
         (snd (SetOptimizerScales 3 1 (with_grid [0, 0, 0] [2000, 2000, 2000] example))))
       ! 23999999999 = 1
   \<and> OptimizerScales (m_Registration
         (snd (SetOptimizerScales 3 1 (with_grid [0, 0, 0] [2000, 2000, 2000] example))))
       ! 2525163519 = infScale"
proof -
  let ?s = "with_grid [0, 0, 0] [2000, 2000, 2000] example"
  let ?r = "\<lparr>GetIndex = [0, 0, 0], GetSize = [2000, 2000, 2000]\<rparr>"
  let ?inset = "\<lparr>GetIndex = [1, 1, 1], GetSize = [1998, 1998, 1998]\<rparr>"
  have g: "GetGridRegion (m_PeriodicBSplineTransform ?s) = ?r"
    by (simp add: with_grid_def)
  have n: "GetNumberOfParameters 3 (m_PeriodicBSplineTransform ?s) = 24000000000"
    by (simp add: GetNumberOfParameters_def GetNumberOfPixels_def g)
  have "inset_size 2000 (Suc 0) = 1998"
    by (simp add: inset_size_def uint_times_def ulong_minus_def int_of_ulong_def
        vnl_math_max_def uint_of_int_def Let_def)
  then have "inset_loop 1 [2000, 2000, 2000] [0, 0, 0] [0..<3] = Inr ([1998, 1998, 1998], [1, 1, 1])"
    by (simp add: upt3)
  then have "inset_loop 1 (GetSize (GetGridRegion (m_PeriodicBSplineTransform ?s)))
      (GetIndex (GetGridRegion (m_PeriodicBSplineTransform ?s))) [0..<3]
        = Inr ([1998, 1998, 1998], [1, 1, 1])"
    by (simp only: g Region.simps)
  from SetOptimizerScales_walks[OF _ this]
  have run: "SetOptimizerScales 3 1 ?s =
     (None,
      SetScales
        (fold (freeze_point 3 ?r 8000000000) (exclusion_walk ?r ?inset)
           (replicate 24000000000 1)) ?s)"
    by (simp add: g n)
  have ir: "inset_region ?r 1 = ?inset" by (simp add: inset_region_def)
  have m1: "[1999, 1999, 1999] \<in> set (region_indices ?r)"
    and m2: "[1519, 581, 631] \<in> set (region_indices ?r)"
    unfolding region_indices_def set_raster by (simp_all add: axes_def)
  have o1: "\<not> IsInside ?inset [1999, 1999, 1999]"
    and i2: "IsInside ?inset [1519, 581, 631]"
    by (simp_all add: IsInside_def axes_def)
  have c1: "ComputeOffset ?r [1999, 1999, 1999] = 7999999999"
    and c2: "ComputeOffset ?r [1519, 581, 631] = 2525163519"
    by (simp_all add: ComputeOffset_def axes_def)
  have k: "(2::nat) ^ 32 \<le> 23999999999" "(23999999999::nat) < length (replicate 24000000000 (1::real))"
    by simp_all
  have k2: "(2525163519::nat) < length (replicate 24000000000 (1::real))" by simp
  have pp: "point_position ?r 8000000000 [1999, 1999, 1999] 2 = 2525163519"
    by (simp add: point_position_def scalesIndex_def c1 ulong_of_long_def ulong_plus_def
        ulong_times_def uint_of_ulong_def)
  have pts: "[1999, 1999, 1999] \<in> set (exclusion_walk ?r ?inset)"
    using m1 o1 by (simp add: exclusion_walk_def)
  have hit: "\<exists>index\<in>set (exclusion_walk ?r ?inset).
      2525163519 \<in> point_position ?r 8000000000 index ` {..<3}"
    using pts pp by (intro bexI[of _ "[1999, 1999, 1999]"] image_eqI[of _ _ 2]) simp_all
  have c: "fst (SetOptimizerScales 3 1 ?s) = None" unfolding run by simp
  have l: "length (OptimizerScales (m_Registration (snd (SetOptimizerScales 3 1 ?s)))) = 24000000000"
    unfolding run by (simp add: SetScales_def length_freeze_walk del: fold_simps)
  have d: "OptimizerScales (m_Registration (snd (SetOptimizerScales 3 1 ?s))) ! 23999999999 = 1"
    unfolding run using untouched_beyond_uint[OF k] k(2)
    by (simp add: SetScales_def del: fold_simps)
  have e: "OptimizerScales (m_Registration (snd (SetOptimizerScales 3 1 ?s))) ! 2525163519 = infScale"
    unfolding run using nth_freeze_walk[OF k2, of 3 ?r 8000000000 "exclusion_walk ?r ?inset"] hit
    by (simp add: SetScales_def del: fold_simps)
  have o1': "\<not> IsInside (inset_region ?r 1) [1999, 1999, 1999]"
    unfolding ir by (rule o1)
  have i2': "IsInside (inset_region ?r 1) [1519, 581, 631]"
    unfolding ir by (rule i2)
  have p1: "nat (ComputeOffset ?r [1999, 1999, 1999])
         + 2 * (GetNumberOfParameters 3 (m_PeriodicBSplineTransform ?s) div 3) = 23999999999"
    and p2: "nat (ComputeOffset ?r [1519, 581, 631])
         + 0 * (GetNumberOfParameters 3 (m_PeriodicBSplineTransform ?s) div 3) = 2525163519"
    by (simp_all add: c1 c2 n)
  have w: "(0::nat) < 1" "2 * 1 < (2000::nat)" by simp_all
  show ?thesis
    by (intro conjI) (fact w m1 m2 o1' i2' p1 p2 c l d e)+
qed

text \<open>
  The conversion of the inset size to \<^verbatim>\<open>int\<close> is a second limit: on a grid of size
  \<open>(2147483650, 3)\<close> with edge width 1 the inset sizes \<open>2147483648\<close> and \<open>1\<close> are positive, but
  the first one, converted to \<^verbatim>\<open>int\<close>, is negative: the source takes the maximum with 0,
  finds the inset size 0 and raises the exception.
\<close>

theorem SetOptimizerScales_large_grid_refused:
  "(0::nat) < 1 \<and> 2 * 1 < (2147483650::nat) \<and> 2 * 1 < (3::nat)
   \<and> fst (SetOptimizerScales 2 1 (with_grid [0, 0] [2147483650, 3] example))
       = Some (ExceptionObject ''ERROR: the PassiveEdgeWidth is too large!'')"
proof -
  have "inset_size 2147483650 (Suc 0) = 0"
    by (simp add: inset_size_def uint_times_def ulong_minus_def int_of_ulong_def
        vnl_math_max_def uint_of_int_def Let_def)
  then have "inset_loop 1 [2147483650, 3] [0, 0] [0..<2] = Inl 0"
    by (simp add: upt2)
  then have "inset_loop 1
      (GetSize (GetGridRegion (m_PeriodicBSplineTransform (with_grid [0, 0] [2147483650, 3] example))))
      (GetIndex (GetGridRegion (m_PeriodicBSplineTransform (with_grid [0, 0] [2147483650, 3] example))))
      [0..<2] = Inl 0"
    by (simp add: with_grid_def)
  from SetOptimizerScales_cases[OF _ this] show ?thesis by simp
qed

text \<open>
  Claim C5. For an edge width \<open>w > 0\<close> and a grid with \<open>size[d] - 2w \<le> 0\<close> on some axis
  the source is to raise the exception and report the width, the axis and its size. It
  does not for \<open>w = 2147483648\<close> on a grid of size \<open>(10, 10)\<close>: \<^verbatim>\<open>2 * edgeWidth\<close> is
  computed on \<^verbatim>\<open>unsigned int\<close> and is 0, each inset size is 10, nothing is raised, nothing is
  reported, and scales are set into the optimizer.
\<close>

theorem SetOptimizerScales_wide_edge_unreported:
  "fst (SetOptimizerScales 2 2147483648 (with_grid [0, 0] [10, 10] example)) = None
   \<and> xout_error (snd (SetOptimizerScales 2 2147483648 (with_grid [0, 0] [10, 10] example))) = []
   \<and> length (OptimizerScales (m_Registration
        (snd (SetOptimizerScales 2 2147483648 (with_grid [0, 0] [10, 10] example))))) = 200"
proof -
  let ?s = "with_grid [0, 0] [10, 10] example"
  have "inset_size 10 2147483648 = 10"
    by (simp add: inset_size_def uint_times_def ulong_minus_def int_of_ulong_def
        vnl_math_max_def uint_of_int_def Let_def)
  then have "inset_loop 2147483648 [10, 10] [0, 0] [0..<2] = Inr ([10, 10], [2147483648, 2147483648])"
    by (simp add: upt2)
  then have "inset_loop 2147483648
      (GetSize (GetGridRegion (m_PeriodicBSplineTransform ?s)))
      (GetIndex (GetGridRegion (m_PeriodicBSplineTransform ?s)))
      [0..<2] = Inr ([10, 10], [2147483648, 2147483648])"
    by (simp add: with_grid_def)
  from SetOptimizerScales_walks[OF _ this]
  have run: "SetOptimizerScales 2 2147483648 ?s =
     (None,
      SetScales
        (fold (freeze_point 2 (GetGridRegion (m_PeriodicBSplineTransform ?s))
                 (GetNumberOfParameters 2 (m_PeriodicBSplineTransform ?s) div 2))
           (exclusion_walk (GetGridRegion (m_PeriodicBSplineTransform ?s))
              \<lparr>GetIndex = [2147483648, 2147483648], GetSize = [10, 10]\<rparr>)
           (replicate (GetNumberOfParameters 2 (m_PeriodicBSplineTransform ?s)) 1)) ?s)"
    by simp
  have n: "GetNumberOfParameters 2 (m_PeriodicBSplineTransform ?s) = 200"
    by (simp add: GetNumberOfParameters_def GetNumberOfPixels_def with_grid_def)
  have e: "xout_error ?s = []" by (simp add: with_grid_def example_def)
  show ?thesis
    unfolding run by (simp add: SetScales_def length_freeze_walk n e del: fold_simps)
qed

text \<open>
  Claim C8. With edge width 0, for every grid and every state of the component,
  \<^verbatim>\<open>SetOptimizerScales\<close> raises nothing and sets into the optimizer the vector of
  \<open>numberOfParameters\<close> entries that are all 1; nothing else of the component changes, and
  no inset region is looked at (the grid may have any size, also one the loop over the
  axes would reject).
\<close>

theorem SetOptimizerScales_zero_width:
  "SetOptimizerScales D 0 s =
     (None, SetScales (replicate (GetNumberOfParameters D (m_PeriodicBSplineTransform s)) 1) s)"
  by (simp add: SetOptimizerScales_def Let_def)

text \<open>
  Claim C9. The sentinel is the finite constant 10000, and whenever
  \<^verbatim>\<open>SetOptimizerScales\<close> sets scales, every entry that is not 1, that is every frozen
  entry, is this value.
\<close>

theorem sentinel_value:
  assumes "fst (SetOptimizerScales D w s) = None"
    and "k < length (OptimizerScales (m_Registration (snd (SetOptimizerScales D w s))))"
    and "OptimizerScales (m_Registration (snd (SetOptimizerScales D w s))) ! k \<noteq> 1"
  shows "infScale = 10000
       \<and> OptimizerScales (m_Registration (snd (SetOptimizerScales D w s))) ! k = 10000"
  using scales_values[OF assms(1,2)] assms(3) by (simp add: infScale_def)

theorem sentinel_value_witness:
  "infScale = 10000
   \<and> OptimizerScales (m_Registration (snd (SetOptimizerScales 2 1 example))) ! 0 = 10000"
proof -
  have a: "fst (SetOptimizerScales 2 1 example) = None" unfolding example_scales by simp
  have b: "0 < length (OptimizerScales (m_Registration (snd (SetOptimizerScales 2 1 example))))"
    unfolding example_scales by (simp add: SetScales_def)
  have c: "OptimizerScales (m_Registration (snd (SetOptimizerScales 2 1 example))) ! 0 \<noteq> 1"
    unfolding example_scales by (simp add: SetScales_def)
  from sentinel_value[OF a b c] show ?thesis .
qed


section \<open>PreComputeGridInformation: the final grid spacing, the schedule and the warning\<close>

lemma ReadParameter_prefix_absent:
  "cfg name = [] \<Longrightarrow> cfg (prefix @ name) = [] \<Longrightarrow>
   ReadParameter_prefix val conv cfg name prefix entry_nr default_entry_nr = val"
  by (simp add: ReadParameter_prefix_def ReadParameter_def Let_def)

lemma ReadParameter_present:
  "entry_nr < length (cfg name) \<Longrightarrow>
   ReadParameter val as_double cfg name entry_nr = cfg name ! entry_nr"
  by (simp add: ReadParameter_def as_double_def)

lemma finalGridSpacing_method1:
  "CountNumberOfParameterEntries (m_Configuration s) ''FinalGridSpacingInPhysicalUnits'' = 0 \<Longrightarrow>
   finalGridSpacing D s =
     map (\<lambda>dim. ReadParameter_prefix 16 as_double (m_Configuration s)
                   ''FinalGridSpacingInVoxels'' (GetComponentLabel s) dim 0
                 * GetSpacing (GetFixedImage s) ! dim) [0..<D]"
  by (simp add: finalGridSpacing_def Let_def)

lemma finalGridSpacing_method2:
  "CountNumberOfParameterEntries (m_Configuration s) ''FinalGridSpacingInPhysicalUnits'' \<noteq> 0 \<Longrightarrow>
   finalGridSpacing D s =
     map (\<lambda>dim. ReadParameter_prefix 8 as_double (m_Configuration s)
                   ''FinalGridSpacingInPhysicalUnits'' (GetComponentLabel s) dim 0) [0..<D]"
  by (simp add: finalGridSpacing_def Let_def)

lemma PreCompute_exception:
  assumes "gridSpacingSchedule D (uint_of_ulong (GetNumberOfLevels (m_Registration s)))
             (m_Configuration s)
             (default_schedule D (uint_of_ulong (GetNumberOfLevels (m_Registration s)))) = Inl u"
  shows "PreComputeGridInformation D C s =
     (Some (ExceptionObject ''ERROR: Invalid GridSpacingSchedule!''),
      s\<lparr>m_GridScheduleComputer := (computer_with_image s)
           \<lparr>Schedule := default_schedule D (uint_of_ulong (GetNumberOfLevels (m_Registration s)))\<rparr>,
        xout_error := xout_error s @ schedule_error_message\<rparr>)"
  using assms
  by (simp add: PreComputeGridInformation_def Let_def SetDefaultSchedule_def default_schedule_def
      computer_with_image_def)

lemma PreCompute_ok:
  assumes "gridSpacingSchedule D (uint_of_ulong (GetNumberOfLevels (m_Registration s)))
             (m_Configuration s)
             (default_schedule D (uint_of_ulong (GetNumberOfLevels (m_Registration s)))) = Inr sch"
  shows "PreComputeGridInformation D C s =
     (None,
      s\<lparr>m_GridScheduleComputer := (computer_with_image s)
           \<lparr>FinalGridSpacing := finalGridSpacing D s, Schedule := sch,
            BSplineGrid := C ((computer_with_image s)
               \<lparr>FinalGridSpacing := finalGridSpacing D s, Schedule := sch\<rparr>)\<rparr>,
        xout_warning := xout_warning s @ spacing_warning_message\<rparr>)"
  using assms
  by (simp add: PreComputeGridInformation_def Let_def SetDefaultSchedule_def default_schedule_def
      computer_with_image_def)

lemma gridSpacingSchedule_Inl:
  "gridSpacingSchedule D nr cfg sch = Inl u \<longleftrightarrow>
     (CountNumberOfParameterEntries cfg ''GridSpacingSchedule'' \<noteq> 0
      \<and> CountNumberOfParameterEntries cfg ''GridSpacingSchedule'' \<noteq> nr
      \<and> CountNumberOfParameterEntries cfg ''GridSpacingSchedule'' \<noteq> uint_times nr D)"
  by (simp add: gridSpacingSchedule_def Let_def)

lemma gridSpacingSchedule_zero:
  "CountNumberOfParameterEntries cfg ''GridSpacingSchedule'' = 0 \<Longrightarrow>
   gridSpacingSchedule D nr cfg sch = Inr sch"
  by (simp add: gridSpacingSchedule_def Let_def)

lemma gridSpacingSchedule_per_axis:
  assumes c: "CountNumberOfParameterEntries cfg ''GridSpacingSchedule'' = uint_times nr D"
    and nz: "uint_times nr D \<noteq> 0" and ne: "uint_times nr D \<noteq> nr"
    and fits: "nr * D < 2 ^ 32"
  shows "gridSpacingSchedule D nr cfg sch =
     Inr (map (\<lambda>res. map (\<lambda>dim. cfg ''GridSpacingSchedule'' ! (res * D + dim)) [0..<D]) [0..<nr])"
proof -
  have u: "uint_times nr D = nr * D" using fits by (simp add: uint_times_def)
  have len: "length (cfg ''GridSpacingSchedule'') = nr * D"
    using c u by (simp add: CountNumberOfParameterEntries_def)
  have "map (\<lambda>res. map (\<lambda>dim. ReadParameter (sch ! res ! dim) as_double cfg ''GridSpacingSchedule''
                    ((res * D + dim) mod 2 ^ 32)) [0..<D]) [0..<nr]
      = map (\<lambda>res. map (\<lambda>dim. cfg ''GridSpacingSchedule'' ! (res * D + dim)) [0..<D]) [0..<nr]"
  proof (intro map_cong refl)
    fix res dim assume "res \<in> set [0..<nr]" "dim \<in> set [0..<D]"
    then have lt: "dim + res * D < nr * D" using block_bound[of dim D res nr] by simp
    then have "(res * D + dim) mod 2 ^ 32 = res * D + dim" using fits by (simp add: add.commute)
    then show "ReadParameter (sch ! res ! dim) as_double cfg ''GridSpacingSchedule''
                    ((res * D + dim) mod 2 ^ 32) = cfg ''GridSpacingSchedule'' ! (res * D + dim)"
      using lt len by (simp add: ReadParameter_present add.commute)
  qed
  then show ?thesis using c nz ne by (simp add: gridSpacingSchedule_def Let_def)
qed

lemma gridSpacingSchedule_per_level:
  assumes "CountNumberOfParameterEntries cfg ''GridSpacingSchedule'' = nr" "nr \<noteq> 0"
  shows "gridSpacingSchedule D nr cfg sch =
     Inr (map (\<lambda>res. replicate D (cfg ''GridSpacingSchedule'' ! res)) [0..<nr])"
proof -
  have "map (\<lambda>res. map (\<lambda>dim. ReadParameter (sch ! res ! dim) as_double cfg ''GridSpacingSchedule'' res)
                  [0..<D]) [0..<nr]
      = map (\<lambda>res. replicate D (cfg ''GridSpacingSchedule'' ! res)) [0..<nr]"
  proof (rule map_cong[OF refl])
    fix res assume "res \<in> set [0..<nr]"
    then have "res < length (cfg ''GridSpacingSchedule'')"
      using assms(1) by (simp add: CountNumberOfParameterEntries_def)
    then show "map (\<lambda>dim. ReadParameter (sch ! res ! dim) as_double cfg ''GridSpacingSchedule'' res) [0..<D]
       = replicate D (cfg ''GridSpacingSchedule'' ! res)"
      by (simp add: ReadParameter_present map_replicate_const)
  qed
  then show ?thesis using assms by (simp add: gridSpacingSchedule_def Let_def)
qed

text \<open>
  Claim C2. Let \<open>count\<close> be the number of entries of \<^verbatim>\<open>GridSpacingSchedule\<close> and \<open>nr\<close> the
  number of resolutions, and let \<open>nr * D\<close> be the product as the source computes it, on
  \<^verbatim>\<open>unsigned int\<close>. If \<open>count\<close> is not 0, not \<open>nr\<close> and not \<open>nr * D\<close>, the exception is raised,
  the error is reported, and the schedule computer keeps the default schedule: neither a
  schedule of the user nor the final grid spacing is set in it, and no grid is computed.
  If \<open>count = nr\<close>, nothing is raised and the schedule that is set has, at each level,
  the one entry of that level on every axis. If \<open>count = 0\<close>, nothing is raised and the
  default schedule is kept. If \<open>count = nr * D\<close>, the schedule that is set has the entry
  \<open>res * D + dim\<close> at level \<open>res\<close> on axis \<open>dim\<close>.
\<close>

theorem GridSpacingSchedule_validation:
  fixes D :: nat and C :: "GridScheduleComputer \<Rightarrow> nat \<Rightarrow> Grid" and s :: Component
  defines "nr \<equiv> uint_of_ulong (GetNumberOfLevels (m_Registration s))"
  defines "count \<equiv> CountNumberOfParameterEntries (m_Configuration s) ''GridSpacingSchedule''"
  defines "gsc \<equiv> m_GridScheduleComputer (snd (PreComputeGridInformation D C s))"
  shows "(count \<noteq> 0 \<and> count \<noteq> nr \<and> count \<noteq> uint_times nr D \<longrightarrow>
            fst (PreComputeGridInformation D C s) =
              Some (ExceptionObject ''ERROR: Invalid GridSpacingSchedule!'')
          \<and> xout_error (snd (PreComputeGridInformation D C s)) =
              xout_error s @ schedule_error_message
          \<and> Schedule gsc = default_schedule D nr
          \<and> FinalGridSpacing gsc = FinalGridSpacing (m_GridScheduleComputer s)
          \<and> BSplineGrid gsc = BSplineGrid (m_GridScheduleComputer s))
       \<and> (count = nr \<and> nr \<noteq> 0 \<longrightarrow>
            fst (PreComputeGridInformation D C s) = None
          \<and> Schedule gsc =
              map (\<lambda>res. replicate D (m_Configuration s ''GridSpacingSchedule'' ! res)) [0..<nr])
       \<and> (count = 0 \<longrightarrow>
            fst (PreComputeGridInformation D C s) = None
          \<and> Schedule gsc = default_schedule D nr)
       \<and> (count = uint_times nr D \<and> count \<noteq> 0 \<and> count \<noteq> nr \<and> nr * D < 2 ^ 32 \<longrightarrow>
            fst (PreComputeGridInformation D C s) = None
          \<and> Schedule gsc =
              map (\<lambda>res. map (\<lambda>dim. m_Configuration s ''GridSpacingSchedule'' ! (res * D + dim))
                    [0..<D]) [0..<nr])"
proof (intro conjI impI)
  assume a: "count \<noteq> 0 \<and> count \<noteq> nr \<and> count \<noteq> uint_times nr D"
  then have "gridSpacingSchedule D nr (m_Configuration s) (default_schedule D nr) = Inl ()"
    by (simp add: gridSpacingSchedule_Inl count_def)
  from PreCompute_exception[OF this[unfolded nr_def], of C]
  have run: "PreComputeGridInformation D C s =
     (Some (ExceptionObject ''ERROR: Invalid GridSpacingSchedule!''),
      s\<lparr>m_GridScheduleComputer := (computer_with_image s)\<lparr>Schedule := default_schedule D nr\<rparr>,
        xout_error := xout_error s @ schedule_error_message\<rparr>)"
    by (simp add: nr_def)
  show "fst (PreComputeGridInformation D C s) =
              Some (ExceptionObject ''ERROR: Invalid GridSpacingSchedule!'')"
    by (simp add: run)
  show "xout_error (snd (PreComputeGridInformation D C s)) = xout_error s @ schedule_error_message"
    by (simp add: run)
  show "Schedule gsc = default_schedule D nr"
    by (simp add: gsc_def run)
  show "FinalGridSpacing gsc = FinalGridSpacing (m_GridScheduleComputer s)"
    by (simp add: gsc_def run computer_with_image_def Let_def)
  show "BSplineGrid gsc = BSplineGrid (m_GridScheduleComputer s)"
    by (simp add: gsc_def run computer_with_image_def Let_def)
next
  assume a: "count = nr \<and> nr \<noteq> 0"
  then have "gridSpacingSchedule D nr (m_Configuration s) (default_schedule D nr) =
     Inr (map (\<lambda>res. replicate D (m_Configuration s ''GridSpacingSchedule'' ! res)) [0..<nr])"
    by (intro gridSpacingSchedule_per_level) (simp_all add: count_def)
  from PreCompute_ok[OF this[unfolded nr_def], of C]
  show "fst (PreComputeGridInformation D C s) = None"
    and "Schedule gsc =
              map (\<lambda>res. replicate D (m_Configuration s ''GridSpacingSchedule'' ! res)) [0..<nr]"
    by (simp_all add: gsc_def nr_def)
next
  assume a: "count = 0"
  then have "gridSpacingSchedule D nr (m_Configuration s) (default_schedule D nr) =
     Inr (default_schedule D nr)"
    by (intro gridSpacingSchedule_zero) (simp add: count_def)
  from PreCompute_ok[OF this[unfolded nr_def], of C]
  show "fst (PreComputeGridInformation D C s) = None"
    and "Schedule gsc = default_schedule D nr"
    by (simp_all add: gsc_def nr_def)
next
  assume a: "count = uint_times nr D \<and> count \<noteq> 0 \<and> count \<noteq> nr \<and> nr * D < 2 ^ 32"
  then have "gridSpacingSchedule D nr (m_Configuration s) (default_schedule D nr) =
     Inr (map (\<lambda>res. map (\<lambda>dim. m_Configuration s ''GridSpacingSchedule'' ! (res * D + dim))
                 [0..<D]) [0..<nr])"
    by (intro gridSpacingSchedule_per_axis) (simp_all add: count_def)
  from PreCompute_ok[OF this[unfolded nr_def], of C]
  show "fst (PreComputeGridInformation D C s) = None"
    and "Schedule gsc =
              map (\<lambda>res. map (\<lambda>dim. m_Configuration s ''GridSpacingSchedule'' ! (res * D + dim))
                    [0..<D]) [0..<nr]"
    by (simp_all add: gsc_def nr_def)
qed

lemma example3_levels:
  "uint_of_ulong (GetNumberOfLevels (m_Registration (with_entries name es (with_levels 3 example)))) = 3"
  by (simp add: with_entries_def with_levels_def uint_of_ulong_def)

lemma example3_count:
  "CountNumberOfParameterEntries (m_Configuration (with_entries name es (with_levels 3 example))) name
     = length es"
  by (simp add: with_entries_def CountNumberOfParameterEntries_def)

theorem GridSpacingSchedule_validation_witness:
  "fst (PreComputeGridInformation 2 unit_grids
          (with_entries ''GridSpacingSchedule'' [4, 2, 1, 7, 7] (with_levels 3 example)))
     = Some (ExceptionObject ''ERROR: Invalid GridSpacingSchedule!'')
   \<and> Schedule (m_GridScheduleComputer (snd (PreComputeGridInformation 2 unit_grids
          (with_entries ''GridSpacingSchedule'' [4, 2, 1, 7, 7] (with_levels 3 example)))))
     = [[4, 4], [2, 2], [1, 1]]
   \<and> Schedule (m_GridScheduleComputer (snd (PreComputeGridInformation 2 unit_grids
          (with_entries ''GridSpacingSchedule'' [3, 2, 1] (with_levels 3 example)))))
     = [[3, 3], [2, 2], [1, 1]]
   \<and> Schedule (m_GridScheduleComputer (snd (PreComputeGridInformation 2 unit_grids
          (with_entries ''GridSpacingSchedule'' [] (with_levels 3 example)))))
     = [[4, 4], [2, 2], [1, 1]]
   \<and> Schedule (m_GridScheduleComputer (snd (PreComputeGridInformation 2 unit_grids
          (with_entries ''GridSpacingSchedule'' [8, 4, 4, 2, 2, 1] (with_levels 3 example)))))
     = [[8, 4], [4, 2], [2, 1]]"
proof -
  have r: "replicate 2 x = [x, x]" for x :: real
    by (simp add: numeral_2_eq_2)
  have d: "default_schedule 2 3 = [[4, 4], [2, 2], [1, 1]]"
    by (simp add: default_schedule_def upt3 r)
  have e: "m_Configuration (with_entries ''GridSpacingSchedule'' [3, 2, 1] (with_levels 3 example))
             ''GridSpacingSchedule'' = [3, 2, 1]"
    by (simp add: with_entries_def)
  have e6: "m_Configuration (with_entries ''GridSpacingSchedule'' [8, 4, 4, 2, 2, 1]
              (with_levels 3 example)) ''GridSpacingSchedule'' = [8, 4, 4, 2, 2, 1]"
    by (simp add: with_entries_def)
  show ?thesis
    using GridSpacingSchedule_validation[of
        "with_entries ''GridSpacingSchedule'' [4, 2, 1, 7, 7] (with_levels 3 example)" 2 unit_grids]
      GridSpacingSchedule_validation[of
        "with_entries ''GridSpacingSchedule'' [3, 2, 1] (with_levels 3 example)" 2 unit_grids]
      GridSpacingSchedule_validation[of
        "with_entries ''GridSpacingSchedule'' [] (with_levels 3 example)" 2 unit_grids]
      GridSpacingSchedule_validation[of
        "with_entries ''GridSpacingSchedule'' [8, 4, 4, 2, 2, 1] (with_levels 3 example)" 2 unit_grids]
    by (simp add: example3_levels example3_count uint_times_def d e e6 upt3 upt2 r)
qed

lemma ReadParameter_cong:
  "cfg name = cfg' name' \<Longrightarrow>
   ReadParameter v conv cfg name e = ReadParameter v conv cfg' name' e"
  by (simp add: ReadParameter_def)

lemma ReadParameter_prefix_cong:
  assumes "cfg name = cfg' name" and "cfg (p @ name) = cfg' (p' @ name)"
  shows "ReadParameter_prefix v conv cfg name p e d = ReadParameter_prefix v conv cfg' name p' e d"
proof -
  have a: "ReadParameter x conv cfg name n = ReadParameter x conv cfg' name n" for x n
    using assms(1) by (simp add: ReadParameter_def)
  have b: "ReadParameter x conv cfg (p @ name) n = ReadParameter x conv cfg' (p' @ name) n" for x n
    using assms(2) by (simp add: ReadParameter_def)
  show ?thesis
    by (simp only: ReadParameter_prefix_def Let_def a b)
qed

lemma PreCompute_final_spacing:
  assumes "fst (PreComputeGridInformation D C s) = None"
  shows "FinalGridSpacing (m_GridScheduleComputer (snd (PreComputeGridInformation D C s)))
           = finalGridSpacing D s"
proof (cases "gridSpacingSchedule D (uint_of_ulong (GetNumberOfLevels (m_Registration s)))
             (m_Configuration s)
             (default_schedule D (uint_of_ulong (GetNumberOfLevels (m_Registration s))))")
  case (Inl u)
  from PreCompute_exception[OF this, of C] assms show ?thesis by simp
next
  case (Inr sch)
  from PreCompute_ok[OF this, of C] show ?thesis by simp
qed

lemma PreCompute_valid:
  fixes D :: nat and C :: "GridScheduleComputer \<Rightarrow> nat \<Rightarrow> Grid" and s :: Component
  defines "nr \<equiv> uint_of_ulong (GetNumberOfLevels (m_Registration s))"
  defines "count \<equiv> CountNumberOfParameterEntries (m_Configuration s) ''GridSpacingSchedule''"
  assumes "count = 0 \<or> count = nr \<or> count = uint_times nr D"
  shows "fst (PreComputeGridInformation D C s) = None"
    and "FinalGridSpacing (m_GridScheduleComputer (snd (PreComputeGridInformation D C s)))
           = finalGridSpacing D s"
proof -
  have "\<not> (\<exists>u. gridSpacingSchedule D nr (m_Configuration s) (default_schedule D nr) = Inl u)"
    using assms(3) by (auto simp: gridSpacingSchedule_Inl count_def)
  then obtain sch where
    "gridSpacingSchedule D nr (m_Configuration s) (default_schedule D nr) = Inr sch"
    by (cases "gridSpacingSchedule D nr (m_Configuration s) (default_schedule D nr)") auto
  from PreCompute_ok[OF this[unfolded nr_def], of C]
  show "fst (PreComputeGridInformation D C s) = None"
    and "FinalGridSpacing (m_GridScheduleComputer (snd (PreComputeGridInformation D C s)))
           = finalGridSpacing D s"
    by simp_all
qed

text \<open>
  Claim C3. On every run of \<^verbatim>\<open>PreComputeGridInformation\<close> that passes the check of the
  schedule, nothing is raised and a final grid spacing is set in the schedule computer.
  If the number of entries of \<^verbatim>\<open>FinalGridSpacingInPhysicalUnits\<close> is 0, it is computed
  from the \<^verbatim>\<open>FinalGridSpacingInVoxels\<close> entries (times the spacing of the fixed image).
  If there is at least one such entry, it is what is read from
  \<^verbatim>\<open>FinalGridSpacingInPhysicalUnits\<close>, and the entries in voxel units are ignored: the
  spacing that is set is the same whatever the entries of \<^verbatim>\<open>FinalGridSpacingInVoxels\<close>
  (under the plain or the labelled name) and the fixed image are.
\<close>

theorem final_spacing_unit_priority:
  fixes D :: nat and C :: "GridScheduleComputer \<Rightarrow> nat \<Rightarrow> Grid" and s :: Component
  defines "cfg \<equiv> m_Configuration s"
  defines "label \<equiv> GetComponentLabel s"
  defines "nr \<equiv> uint_of_ulong (GetNumberOfLevels (m_Registration s))"
  defines "count \<equiv> CountNumberOfParameterEntries cfg ''GridSpacingSchedule''"
  defines "physical \<equiv> CountNumberOfParameterEntries cfg ''FinalGridSpacingInPhysicalUnits''"
  defines "set_spacing \<equiv>
     FinalGridSpacing (m_GridScheduleComputer (snd (PreComputeGridInformation D C s)))"
  assumes valid: "count = 0 \<or> count = nr \<or> count = uint_times nr D"
  shows "fst (PreComputeGridInformation D C s) = None
       \<and> (physical = 0 \<longrightarrow>
            set_spacing =
              map (\<lambda>dim. ReadParameter_prefix 16 as_double cfg ''FinalGridSpacingInVoxels'' label dim 0
                          * GetSpacing (GetFixedImage s) ! dim) [0..<D])
       \<and> (physical \<noteq> 0 \<longrightarrow>
            set_spacing =
              map (\<lambda>dim. ReadParameter_prefix 8 as_double cfg ''FinalGridSpacingInPhysicalUnits''
                            label dim 0) [0..<D]
            \<and> (\<forall>voxels labelled image.
                  FinalGridSpacing (m_GridScheduleComputer (snd (PreComputeGridInformation D C
                    (s\<lparr>m_Configuration :=
                         cfg(''FinalGridSpacingInVoxels'' := voxels,
                             label @ ''FinalGridSpacingInVoxels'' := labelled),
                       GetFixedImage := image\<rparr>))))
                  = set_spacing))"
proof -
  have ok: "fst (PreComputeGridInformation D C s) = None"
    and sp: "set_spacing = finalGridSpacing D s"
    using PreCompute_valid[of s D C] valid
    by (simp_all add: count_def nr_def cfg_def set_spacing_def)
  have 1: "set_spacing =
              map (\<lambda>dim. ReadParameter_prefix 16 as_double cfg ''FinalGridSpacingInVoxels'' label dim 0
                          * GetSpacing (GetFixedImage s) ! dim) [0..<D]"
    if "physical = 0"
    using that finalGridSpacing_method1[of s D] by (simp add: sp physical_def cfg_def label_def)
  have 2: "set_spacing =
              map (\<lambda>dim. ReadParameter_prefix 8 as_double cfg ''FinalGridSpacingInPhysicalUnits''
                            label dim 0) [0..<D]"
    if "physical \<noteq> 0"
    using that finalGridSpacing_method2[of s D] by (simp add: sp physical_def cfg_def label_def)
  have 3: "FinalGridSpacing (m_GridScheduleComputer (snd (PreComputeGridInformation D C
                    (s\<lparr>m_Configuration :=
                         cfg(''FinalGridSpacingInVoxels'' := voxels,
                             label @ ''FinalGridSpacingInVoxels'' := labelled),
                       GetFixedImage := image\<rparr>))))
                  = set_spacing"
    if p: "physical \<noteq> 0" for voxels labelled image
  proof -
    let ?cfg' = "cfg(''FinalGridSpacingInVoxels'' := voxels,
                     label @ ''FinalGridSpacingInVoxels'' := labelled)"
    let ?s' = "s\<lparr>m_Configuration := ?cfg', GetFixedImage := image\<rparr>"
    have ne: "label @ ''FinalGridSpacingInVoxels'' \<noteq> ''GridSpacingSchedule''"
      "label @ ''FinalGridSpacingInVoxels'' \<noteq> ''FinalGridSpacingInPhysicalUnits''"
      "label @ ''FinalGridSpacingInVoxels'' \<noteq> label @ ''FinalGridSpacingInPhysicalUnits''"
    proof -
      show "label @ ''FinalGridSpacingInVoxels'' \<noteq> ''GridSpacingSchedule''"
        by (auto dest: arg_cong[where f = length])
      show "label @ ''FinalGridSpacingInVoxels'' \<noteq> ''FinalGridSpacingInPhysicalUnits''"
        by (auto dest: arg_cong[where f = rev])
      show "label @ ''FinalGridSpacingInVoxels'' \<noteq> label @ ''FinalGridSpacingInPhysicalUnits''"
        by simp
    qed
    have c: "CountNumberOfParameterEntries (m_Configuration ?s') ''GridSpacingSchedule'' = count"
      using ne by (simp add: CountNumberOfParameterEntries_def count_def)
    have n: "uint_of_ulong (GetNumberOfLevels (m_Registration ?s')) = nr"
      by (simp add: nr_def)
    have v: "FinalGridSpacing (m_GridScheduleComputer (snd (PreComputeGridInformation D C ?s')))
           = finalGridSpacing D ?s'"
      using PreCompute_valid(2)[of ?s' D C] valid unfolding c n by simp
    have p': "CountNumberOfParameterEntries (m_Configuration ?s') ''FinalGridSpacingInPhysicalUnits'' \<noteq> 0"
      using p ne by (simp add: CountNumberOfParameterEntries_def physical_def)
    have "ReadParameter_prefix 8 as_double (m_Configuration ?s') ''FinalGridSpacingInPhysicalUnits''
           (GetComponentLabel ?s') dim 0
      = ReadParameter_prefix 8 as_double cfg ''FinalGridSpacingInPhysicalUnits'' label dim 0" for dim
      using ne by (intro ReadParameter_prefix_cong) (simp_all add: label_def)
    then have "finalGridSpacing D ?s' = finalGridSpacing D s"
      using finalGridSpacing_method2[OF p', of D]
        finalGridSpacing_method2[OF p[unfolded physical_def cfg_def], of D]
      by (simp add: cfg_def label_def)
    then show ?thesis using v sp by simp
  qed
  show ?thesis using ok 1 2 3 by blast
qed

theorem final_spacing_unit_priority_witness:
  "fst (PreComputeGridInformation 2 unit_grids
          (with_entries ''FinalGridSpacingInVoxels'' [16] example)) = None
   \<and> FinalGridSpacing (m_GridScheduleComputer (snd (PreComputeGridInformation 2 unit_grids
          (with_entries ''FinalGridSpacingInVoxels'' [16] example)))) = [32, 32]
   \<and> fst (PreComputeGridInformation 2 unit_grids
          (with_entries ''FinalGridSpacingInPhysicalUnits'' [5, 6]
             (with_entries ''FinalGridSpacingInVoxels'' [16] example))) = None
   \<and> FinalGridSpacing (m_GridScheduleComputer (snd (PreComputeGridInformation 2 unit_grids
          (with_entries ''FinalGridSpacingInPhysicalUnits'' [5, 6]
             (with_entries ''FinalGridSpacingInVoxels'' [16] example))))) = [5, 6]
   \<and> FinalGridSpacing (m_GridScheduleComputer (snd (PreComputeGridInformation 2 unit_grids
          (with_entries ''FinalGridSpacingInPhysicalUnits'' [5, 6]
             (with_entries ''FinalGridSpacingInVoxels'' [1, 1] example))))) = [5, 6]"
proof -
  let ?v = "with_entries ''FinalGridSpacingInVoxels'' [16] example"
  let ?p = "with_entries ''FinalGridSpacingInPhysicalUnits'' [5, 6] ?v"
  let ?q = "with_entries ''FinalGridSpacingInPhysicalUnits'' [5, 6]
        (with_entries ''FinalGridSpacingInVoxels'' [1, 1] example)"
  have cv: "CountNumberOfParameterEntries (m_Configuration ?v) ''GridSpacingSchedule'' = 0"
    and cp: "CountNumberOfParameterEntries (m_Configuration ?p) ''GridSpacingSchedule'' = 0"
    by (simp_all add: CountNumberOfParameterEntries_def with_entries_def example_def)
  have pv: "CountNumberOfParameterEntries (m_Configuration ?v) ''FinalGridSpacingInPhysicalUnits'' = 0"
    and pp: "CountNumberOfParameterEntries (m_Configuration ?p) ''FinalGridSpacingInPhysicalUnits'' = 2"
    by (simp_all add: CountNumberOfParameterEntries_def with_entries_def example_def)
  have q: "?q = ?p\<lparr>m_Configuration :=
                  (m_Configuration ?p)(''FinalGridSpacingInVoxels'' := [1, 1],
                     GetComponentLabel ?p @ ''FinalGridSpacingInVoxels'' := []),
                GetFixedImage := GetFixedImage example\<rparr>"
    by (simp add: with_entries_def example_def fun_eq_iff)
  have 1: "fst (PreComputeGridInformation 2 unit_grids ?v) = None
     \<and> FinalGridSpacing (m_GridScheduleComputer (snd (PreComputeGridInformation 2 unit_grids ?v)))
         = [32, 32]"
    using final_spacing_unit_priority[of ?v 2 unit_grids] cv pv
    by (simp add: upt2 ReadParameter_prefix_def ReadParameter_def as_double_def Let_def
        with_entries_def example_def)
  have 2: "fst (PreComputeGridInformation 2 unit_grids ?p) = None
     \<and> FinalGridSpacing (m_GridScheduleComputer (snd (PreComputeGridInformation 2 unit_grids ?p)))
         = [5, 6]"
    using final_spacing_unit_priority[of ?p 2 unit_grids] cp pp
    by (simp add: upt2 ReadParameter_prefix_def ReadParameter_def as_double_def Let_def
        with_entries_def example_def)
  have 3: "FinalGridSpacing (m_GridScheduleComputer (snd (PreComputeGridInformation 2 unit_grids ?q)))
         = FinalGridSpacing (m_GridScheduleComputer (snd (PreComputeGridInformation 2 unit_grids ?p)))"
    unfolding q using final_spacing_unit_priority[of ?p 2 unit_grids] cp pp by simp
  show ?thesis using 1 2 3 by simp
qed

text \<open>
  Claim C7. When there is no entry of \<^verbatim>\<open>FinalGridSpacingInPhysicalUnits\<close>, the final
  grid spacing in physical units is, on every axis \<open>d\<close>, the value read for
  \<^verbatim>\<open>FinalGridSpacingInVoxels\<close> on that axis (16 when the key is absent) times the spacing
  of the fixed image on that axis; and this is what is set in the schedule computer when
  nothing is raised. With the entry 16 and the image spacing \<open>(2, 2)\<close> it is \<open>(32, 32)\<close>.
\<close>

theorem final_spacing_from_voxels:
  fixes D d :: nat and C :: "GridScheduleComputer \<Rightarrow> nat \<Rightarrow> Grid" and s :: Component
  defines "cfg \<equiv> m_Configuration s"
  defines "label \<equiv> GetComponentLabel s"
  assumes none: "CountNumberOfParameterEntries cfg ''FinalGridSpacingInPhysicalUnits'' = 0"
    and d: "d < D"
  shows "finalGridSpacing D s ! d =
           ReadParameter_prefix 16 as_double cfg ''FinalGridSpacingInVoxels'' label d 0
             * GetSpacing (GetFixedImage s) ! d
       \<and> (cfg ''FinalGridSpacingInVoxels'' = [] \<and> cfg (label @ ''FinalGridSpacingInVoxels'') = []
            \<longrightarrow> finalGridSpacing D s ! d = 16 * GetSpacing (GetFixedImage s) ! d)
       \<and> (fst (PreComputeGridInformation D C s) = None \<longrightarrow>
            FinalGridSpacing (m_GridScheduleComputer (snd (PreComputeGridInformation D C s))) ! d
              = ReadParameter_prefix 16 as_double cfg ''FinalGridSpacingInVoxels'' label d 0
                  * GetSpacing (GetFixedImage s) ! d)"
proof -
  have 1: "finalGridSpacing D s ! d =
           ReadParameter_prefix 16 as_double cfg ''FinalGridSpacingInVoxels'' label d 0
             * GetSpacing (GetFixedImage s) ! d"
    using finalGridSpacing_method1[OF none[unfolded cfg_def], of D] d
    by (simp add: cfg_def label_def)
  have 2: "finalGridSpacing D s ! d = 16 * GetSpacing (GetFixedImage s) ! d"
    if "cfg ''FinalGridSpacingInVoxels'' = [] \<and> cfg (label @ ''FinalGridSpacingInVoxels'') = []"
    using 1 that by (simp add: ReadParameter_prefix_absent)
  have 3: "FinalGridSpacing (m_GridScheduleComputer (snd (PreComputeGridInformation D C s))) ! d
              = ReadParameter_prefix 16 as_double cfg ''FinalGridSpacingInVoxels'' label d 0
                  * GetSpacing (GetFixedImage s) ! d"
    if "fst (PreComputeGridInformation D C s) = None"
    using PreCompute_final_spacing[OF that] 1 by simp
  show ?thesis using 1 2 3 by blast
qed

theorem final_spacing_from_voxels_witness:
  "finalGridSpacing 2 (with_entries ''FinalGridSpacingInVoxels'' [16] example) ! 0 = 32
   \<and> finalGridSpacing 2 (with_entries ''FinalGridSpacingInVoxels'' [16] example) ! 1 = 32
   \<and> finalGridSpacing 2 example ! 1 = 32
   \<and> FinalGridSpacing (m_GridScheduleComputer (snd (PreComputeGridInformation 2 unit_grids
        (with_entries ''FinalGridSpacingInVoxels'' [16] example)))) ! 1 = 32"
proof -
  let ?v = "with_entries ''FinalGridSpacingInVoxels'' [16] example"
  have cv: "CountNumberOfParameterEntries (m_Configuration ?v) ''FinalGridSpacingInPhysicalUnits'' = 0"
    by (simp add: CountNumberOfParameterEntries_def with_entries_def example_def)
  have ce: "CountNumberOfParameterEntries (m_Configuration example) ''FinalGridSpacingInPhysicalUnits'' = 0"
    by (simp add: CountNumberOfParameterEntries_def example_def)
  have ok: "fst (PreComputeGridInformation 2 unit_grids ?v) = None"
  proof -
    have "gridSpacingSchedule 2 (uint_of_ulong (GetNumberOfLevels (m_Registration ?v)))
             (m_Configuration ?v)
             (default_schedule 2 (uint_of_ulong (GetNumberOfLevels (m_Registration ?v))))
          = Inr (default_schedule 2 (uint_of_ulong (GetNumberOfLevels (m_Registration ?v))))"
      by (intro gridSpacingSchedule_zero)
         (simp add: CountNumberOfParameterEntries_def with_entries_def example_def)
    from PreCompute_ok[OF this] show ?thesis by simp
  qed
  have d0: "(0::nat) < 2" and d1: "(1::nat) < 2" by simp_all
  have r: "ReadParameter_prefix 16 as_double (m_Configuration ?v) ''FinalGridSpacingInVoxels''
             (GetComponentLabel ?v) n 0 = 16" for n
    by (simp add: ReadParameter_prefix_def ReadParameter_def as_double_def Let_def
        with_entries_def example_def)
  have sp: "GetSpacing (GetFixedImage ?v) = [2, 2]" "GetSpacing (GetFixedImage example) = [2, 2]"
    by (simp_all add: with_entries_def example_def)
  have ab: "m_Configuration example ''FinalGridSpacingInVoxels'' = []
          \<and> m_Configuration example (GetComponentLabel example @ ''FinalGridSpacingInVoxels'') = []"
    by (simp add: example_def)
  show ?thesis
    using final_spacing_from_voxels[OF cv d0, of unit_grids]
      final_spacing_from_voxels[OF cv d1, of unit_grids]
      final_spacing_from_voxels[OF ce d1, of unit_grids] ok ab
    by (simp add: r sp)
qed

text \<open>
  Claim C4, as amended. The warning that the grid spacing may be adapted is reported on
  every run of \<^verbatim>\<open>PreComputeGridInformation\<close> that passes the check of the schedule, once,
  whatever the spacing is; it is not fatal: nothing is raised on such a run and the grids
  are computed after it. It is not reported on a run that ends in the exception.
\<close>

theorem spacing_warning_unconditional:
  fixes D :: nat and C :: "GridScheduleComputer \<Rightarrow> nat \<Rightarrow> Grid" and s :: Component
  defines "nr \<equiv> uint_of_ulong (GetNumberOfLevels (m_Registration s))"
  defines "count \<equiv> CountNumberOfParameterEntries (m_Configuration s) ''GridSpacingSchedule''"
  defines "gsc \<equiv> m_GridScheduleComputer (snd (PreComputeGridInformation D C s))"
  shows "(count = 0 \<or> count = nr \<or> count = uint_times nr D \<longrightarrow>
            fst (PreComputeGridInformation D C s) = None
          \<and> xout_warning (snd (PreComputeGridInformation D C s)) =
              xout_warning s @ spacing_warning_message
          \<and> BSplineGrid gsc = C (gsc\<lparr>BSplineGrid := BSplineGrid (m_GridScheduleComputer s)\<rparr>))
       \<and> (count \<noteq> 0 \<and> count \<noteq> nr \<and> count \<noteq> uint_times nr D \<longrightarrow>
            fst (PreComputeGridInformation D C s) \<noteq> None
          \<and> xout_warning (snd (PreComputeGridInformation D C s)) = xout_warning s)"
proof (intro conjI impI)
  assume a: "count = 0 \<or> count = nr \<or> count = uint_times nr D"
  have "\<not> (\<exists>u. gridSpacingSchedule D nr (m_Configuration s) (default_schedule D nr) = Inl u)"
    using a by (auto simp: gridSpacingSchedule_Inl count_def)
  then obtain sch where
    "gridSpacingSchedule D nr (m_Configuration s) (default_schedule D nr) = Inr sch"
    by (cases "gridSpacingSchedule D nr (m_Configuration s) (default_schedule D nr)") auto
  from PreCompute_ok[OF this[unfolded nr_def], of C]
  have run: "PreComputeGridInformation D C s =
     (None,
      s\<lparr>m_GridScheduleComputer := (computer_with_image s)
           \<lparr>FinalGridSpacing := finalGridSpacing D s, Schedule := sch,
            BSplineGrid := C ((computer_with_image s)
               \<lparr>FinalGridSpacing := finalGridSpacing D s, Schedule := sch\<rparr>)\<rparr>,
        xout_warning := xout_warning s @ spacing_warning_message\<rparr>)" .
  show "fst (PreComputeGridInformation D C s) = None" by (simp add: run)
  show "xout_warning (snd (PreComputeGridInformation D C s)) =
              xout_warning s @ spacing_warning_message" by (simp add: run)
  have "(computer_with_image s)
          \<lparr>FinalGridSpacing := finalGridSpacing D s, Schedule := sch,
           BSplineGrid := BSplineGrid (m_GridScheduleComputer s)\<rparr>
        = (computer_with_image s)\<lparr>FinalGridSpacing := finalGridSpacing D s, Schedule := sch\<rparr>"
    by (rule GridScheduleComputer.equality) (simp_all add: computer_with_image_def Let_def)
  then show "BSplineGrid gsc = C (gsc\<lparr>BSplineGrid := BSplineGrid (m_GridScheduleComputer s)\<rparr>)"
    by (simp add: gsc_def run)
next
  assume a: "count \<noteq> 0 \<and> count \<noteq> nr \<and> count \<noteq> uint_times nr D"
  then have "gridSpacingSchedule D nr (m_Configuration s) (default_schedule D nr) = Inl ()"
    by (simp add: gridSpacingSchedule_Inl count_def)
  from PreCompute_exception[OF this[unfolded nr_def], of C]
  show "fst (PreComputeGridInformation D C s) \<noteq> None"
    and "xout_warning (snd (PreComputeGridInformation D C s)) = xout_warning s"
    by simp_all
qed

lemma example_precompute:
  "PreComputeGridInformation 2 unit_grids example =
     (None,
      example\<lparr>m_GridScheduleComputer := (computer_with_image example)
           \<lparr>FinalGridSpacing := [32, 32], Schedule := [[1, 1]],
            BSplineGrid := (\<lambda>level. unit_grid)\<rparr>,
        xout_warning := spacing_warning_message\<rparr>)"
proof -
  have n: "uint_of_ulong (GetNumberOfLevels (m_Registration example)) = 1"
    by (simp add: example_def uint_of_ulong_def)
  have r: "replicate 2 x = [x, x]" for x :: real
    by (simp add: numeral_2_eq_2)
  have d: "default_schedule 2 1 = [[1, 1]]"
    by (simp add: default_schedule_def r)
  have f: "finalGridSpacing 2 example = [32, 32]"
    by (simp add: finalGridSpacing_def Let_def CountNumberOfParameterEntries_def upt2
        ReadParameter_prefix_def ReadParameter_def example_def)
  have "gridSpacingSchedule 2 1 (m_Configuration example) (default_schedule 2 1)
          = Inr (default_schedule 2 1)"
    by (intro gridSpacingSchedule_zero) (simp add: CountNumberOfParameterEntries_def example_def)
  then have "gridSpacingSchedule 2 (uint_of_ulong (GetNumberOfLevels (m_Registration example)))
             (m_Configuration example)
             (default_schedule 2 (uint_of_ulong (GetNumberOfLevels (m_Registration example))))
          = Inr [[1, 1]]"
    by (simp only: n d)
  moreover have "xout_warning example = []" by (simp add: example_def)
  ultimately show ?thesis
    using PreCompute_ok[of 2 example "[[1, 1]]" unit_grids]
    by (simp add: f unit_grids_def[abs_def])
qed

theorem spacing_warning_unconditional_witness:
  "fst (PreComputeGridInformation 2 unit_grids example) = None
   \<and> xout_warning (snd (PreComputeGridInformation 2 unit_grids example)) = spacing_warning_message
   \<and> fst (PreComputeGridInformation 2 unit_grids
        (with_entries ''GridSpacingSchedule'' [4, 2, 1, 7, 7] (with_levels 3 example))) \<noteq> None
   \<and> xout_warning (snd (PreComputeGridInformation 2 unit_grids
        (with_entries ''GridSpacingSchedule'' [4, 2, 1, 7, 7] (with_levels 3 example)))) = []"
proof -
  have n: "uint_of_ulong (GetNumberOfLevels (m_Registration example)) = 1"
    by (simp add: example_def uint_of_ulong_def)
  have c: "CountNumberOfParameterEntries (m_Configuration example) ''GridSpacingSchedule'' = 0"
    by (simp add: CountNumberOfParameterEntries_def example_def)
  have w: "xout_warning example = []"
    "xout_warning (with_entries ''GridSpacingSchedule'' [4, 2, 1, 7, 7] (with_levels 3 example)) = []"
    by (simp_all add: example_def with_entries_def with_levels_def)
  show ?thesis
    using spacing_warning_unconditional[of example 2 unit_grids]
      spacing_warning_unconditional[of
        "with_entries ''GridSpacingSchedule'' [4, 2, 1, 7, 7] (with_levels 3 example)" 2 unit_grids]
    by (simp add: n c w example3_levels example3_count uint_times_def)
qed

text \<open>
  Claim C4 as it is stated does not hold: the warning is also reported when the
  requested spacing divides the domain evenly. For the small component, with an image
  of 64 by 64 voxels of spacing 2, one level and the default 16 voxels, the requested
  spacing 32 divides the extent 128 on both axes, and the warning is reported.
\<close>

theorem spacing_warning_counterexample:
  "spacing_fits 2 (m_GridScheduleComputer (snd (PreComputeGridInformation 2 unit_grids example)))
   \<and> xout_warning (snd (PreComputeGridInformation 2 unit_grids example)) = spacing_warning_message"
proof -
  have g: "ImageSpacing (computer_with_image example) = [2, 2]"
    "GetSize (ImageRegion (computer_with_image example)) = [64, 64]"
    by (simp_all add: computer_with_image_def Let_def example_def)
  show ?thesis
    unfolding example_precompute
    by (simp add: spacing_fits_def divides_evenly_def g upt2)
qed


section \<open>BeforeEachResolution\<close>



lemma length_scales_set:
  assumes "fst (SetOptimizerScales D w s) = None"
  shows "length (OptimizerScales (m_Registration (snd (SetOptimizerScales D w s))))
           = GetNumberOfParameters D (m_PeriodicBSplineTransform s)"
proof (cases "w = 0")
  case True
  then show ?thesis by (simp add: SetOptimizerScales_0 SetScales_def)
next
  case False
  let ?r = "GetGridRegion (m_PeriodicBSplineTransform s)"
  show ?thesis
  proof (cases "inset_loop w (GetSize ?r) (GetIndex ?r) [0..<D]")
    case (Inl i)
    then show ?thesis using assms False by (simp add: SetOptimizerScales_cases)
  next
    case (Inr p)
    obtain a b where p: "p = (a, b)" by (cases p)
    show ?thesis
      using SetOptimizerScales_walks[OF False] Inr p
      by (simp add: SetScales_def length_freeze_walk del: fold_simps)
  qed
qed












section \<open>WriteToFile and ReadFromFile: the round trip\<close>

lemma contents_put [simp]: "contents (put xs out) = contents out @ xs"
  and precision_put [simp]: "precision (put xs out) = precision out"
  by (simp_all add: put_def)

lemma contents_put_double [simp]:
  "contents (put_double x out) = contents out @ [Dbl (precision out) x]"
  and precision_put_double [simp]: "precision (put_double x out) = precision out"
  by (simp_all add: put_double_def)

lemma contents_setprecision [simp]: "contents (setprecision p out) = contents out"
  and precision_setprecision [simp]: "precision (setprecision p out) = p"
  by (simp_all add: setprecision_def)






lemma precision_write_grid: "precision (write_grid D t p out) = p"
  by (simp add: write_grid_def Let_def)

























end
